theory Spec2Isabelle
  imports Complex_Main "HOL-Library.AList"
begin

unbundle bit_operations_syntax

section \<open>Python values and helpers\<close>

text \<open>
  The supervisor (\<^verbatim>\<open>backend/devices.py\<close>) is embedded by explicit state passing.
  A Python float is a \<open>pyfloat\<close>: a finite value (a \<^typ>\<open>real\<close>, so without rounding or
  overflow, and with one zero), one of the two infinities, or NaN. Python strings are
  modelled by \<^typ>\<open>string\<close> with one \<^typ>\<open>char\<close> per code point (so code points up to
  255), and a value of unknown type (\<^verbatim>\<open>Any\<close>) by \<open>pyval\<close>: \<open>Num\<close> is every value that
  \<^verbatim>\<open>float()\<close> accepts, with the float it gives (so also NaN and the infinities, which
  \<^verbatim>\<open>float()\<close> accepts as floats and as the texts \<^verbatim>\<open>"nan"\<close> and \<^verbatim>\<open>"inf"\<close>), \<open>Str\<close> is text
  that \<^verbatim>\<open>float()\<close> rejects, \<open>NoneV\<close> is \<^verbatim>\<open>None\<close>.
\<close>

datatype pyfloat = Fin real | PInf | NInf | NaN

text \<open>\<^verbatim>\<open>a < b\<close> and \<^verbatim>\<open>a <= b\<close> on floats: every comparison with NaN is false.\<close>

fun fl_less :: "pyfloat \<Rightarrow> pyfloat \<Rightarrow> bool" where
  "fl_less NaN _ = False"
| "fl_less _ NaN = False"
| "fl_less (Fin a) (Fin b) = (a < b)"
| "fl_less (Fin a) PInf = True"
| "fl_less (Fin a) NInf = False"
| "fl_less PInf _ = False"
| "fl_less NInf (Fin b) = True"
| "fl_less NInf PInf = True"
| "fl_less NInf NInf = False"

definition fl_le :: "pyfloat \<Rightarrow> pyfloat \<Rightarrow> bool" where
  "fl_le a b \<longleftrightarrow> a \<noteq> NaN \<and> b \<noteq> NaN \<and> (fl_less a b \<or> a = b)"

text \<open>\<^verbatim>\<open>bool(x)\<close> of a float: only zero is false.\<close>

definition fl_truthy :: "pyfloat \<Rightarrow> bool" where
  "fl_truthy x \<longleftrightarrow> x \<noteq> Fin 0"

text \<open>
  \<^verbatim>\<open>a / b\<close> for a divisor that is not zero (Python raises on a zero divisor; the one
  division of the supervisor is guarded) and \<^verbatim>\<open>a * b\<close>.
\<close>

fun fl_div :: "pyfloat \<Rightarrow> pyfloat \<Rightarrow> pyfloat" where
  "fl_div NaN _ = NaN"
| "fl_div _ NaN = NaN"
| "fl_div (Fin a) (Fin b) = Fin (a / b)"
| "fl_div (Fin a) PInf = Fin 0"
| "fl_div (Fin a) NInf = Fin 0"
| "fl_div PInf (Fin b) = (if 0 < b then PInf else NInf)"
| "fl_div NInf (Fin b) = (if 0 < b then NInf else PInf)"
| "fl_div PInf PInf = NaN"
| "fl_div PInf NInf = NaN"
| "fl_div NInf PInf = NaN"
| "fl_div NInf NInf = NaN"

fun fl_mul :: "pyfloat \<Rightarrow> pyfloat \<Rightarrow> pyfloat" where
  "fl_mul NaN _ = NaN"
| "fl_mul _ NaN = NaN"
| "fl_mul (Fin a) (Fin b) = Fin (a * b)"
| "fl_mul (Fin a) PInf = (if a = 0 then NaN else if 0 < a then PInf else NInf)"
| "fl_mul (Fin a) NInf = (if a = 0 then NaN else if 0 < a then NInf else PInf)"
| "fl_mul PInf (Fin b) = (if b = 0 then NaN else if 0 < b then PInf else NInf)"
| "fl_mul NInf (Fin b) = (if b = 0 then NaN else if 0 < b then NInf else PInf)"
| "fl_mul PInf PInf = PInf"
| "fl_mul PInf NInf = NInf"
| "fl_mul NInf PInf = NInf"
| "fl_mul NInf NInf = PInf"

datatype pyval = Num pyfloat | NoneV | Str string

fun truthy :: "pyval \<Rightarrow> bool" where
  "truthy (Num r) = fl_truthy r"
| "truthy NoneV = False"
| "truthy (Str t) = (t \<noteq> [])"

text \<open>\<^verbatim>\<open>float(x)\<close>: \<open>None\<close> stands for the \<^verbatim>\<open>ValueError\<close>/\<^verbatim>\<open>TypeError\<close> it raises.\<close>

fun py_float :: "pyval \<Rightarrow> pyfloat option" where
  "py_float (Num r) = Some r"
| "py_float NoneV = None"
| "py_float (Str t) = None"

text \<open>\<^verbatim>\<open>x or 0\<close>\<close>

definition or_zero :: "pyval \<Rightarrow> pyval" where
  "or_zero x = (if truthy x then x else Num (Fin 0))"

text \<open>\<^verbatim>\<open>xs[-n:]\<close> for a positive \<open>n\<close>: the last \<open>n\<close> elements, the whole list when it is shorter.\<close>

definition py_last_n :: "nat \<Rightarrow> 'a list \<Rightarrow> 'a list" where
  "py_last_n n xs = drop (length xs - n) xs"

text \<open>\<^verbatim>\<open>s.ljust(n, c)\<close> and \<^verbatim>\<open>s[:8].ljust(8, "_")\<close>\<close>

definition ljust :: "nat \<Rightarrow> char \<Rightarrow> string \<Rightarrow> string" where
  "ljust n c t = t @ replicate (n - length t) c"

definition pad8 :: "string \<Rightarrow> string" where
  "pad8 t = ljust 8 (CHR ''_'') (take 8 t)"

text \<open>The sentinel \<^verbatim>\<open>(0, "N/A")\<close> of a quantity that has not been read.\<close>

definition unknown :: "pyval \<times> string" where
  "unknown = (Num (Fin 0), ''N/A'')"

subsection \<open>\<^verbatim>\<open>pack_tag_name\<close>\<close>

definition pack4 :: "nat list \<Rightarrow> nat list" where
  "pack4 c =
     [ push_bit 2 (c ! 0) OR drop_bit 4 (c ! 1),
       push_bit 4 ((c ! 1) AND 15) OR drop_bit 2 (c ! 2),
       push_bit 6 ((c ! 2) AND 3) OR (c ! 3) ]"

definition pack_tag_name :: "string \<Rightarrow> nat list" where
  "pack_tag_name tag0 =
     (let t = pad8 tag0
      in concat (map (\<lambda>i. pack4 (map (\<lambda>ch. of_char ch AND 63) (take 4 (drop i t)))) [0, 4]))"

section \<open>The driver, the transport and the clock\<close>

text \<open>
  The protocol driver (\<^verbatim>\<open>sprotocol.device.mfc\<close>), the serial transport, the settings file
  and the wall clock are outside the supervisor. Every call to them is an \<open>event\<close>,
  appended to the \<open>trace\<close> of the state; what the call answers is given by a \<open>world\<close>,
  which may depend on everything that happened before. A binding (the \<^verbatim>\<open>mfc\<close> object)
  is identified by its packed tag.
\<close>

datatype request =
    GetAddress
  | SelectGaz int
  | SelectNom int
  | WriteTotalizerControl int
  | WriteRampControl int
  | WriteLinearRampValue pyfloat
  | WriteSetpoint pyfloat int
  | SetVanne int
  | RedVanne
  | ReadFlowRate int
  | ReadDynamic
  | ReadFullScaleFlowRate int
  | ReadTotalizerValue

datatype event =
    SerialOpen string
  | SerialClose
  | MfcNew
  | Mfc "nat list" request
  | EnsureDir
  | SaveTags "string list"

datatype 'a outcome = Raises | Returns 'a

record world =
  command :: "event list \<Rightarrow> event \<Rightarrow> unit outcome"
  reading :: "event list \<Rightarrow> event \<Rightarrow> (pyval \<times> string) option outcome"
  valve_label :: "event list \<Rightarrow> event \<Rightarrow> string option outcome"
  gas_name :: "event list \<Rightarrow> event \<Rightarrow> nat list outcome"
  now :: "nat \<Rightarrow> nat"
  tags_json :: "event list \<Rightarrow> string list option outcome"

datatype error =
    IndexError | KeyError | ValueError | AttributeError | OSError
  | NotConnected | DeviceOff | TransportError | DriverError

section \<open>The data model\<close>

record device_state =
  index :: int
  tag :: string
  active :: bool
  selected_gas :: "int option"
  available_gases :: "string list"
  gas_map :: "(string \<times> int) list"
  consigne :: pyfloat
  full_scale_value :: pyfloat
  mesure :: "pyval \<times> string"
  temperature :: "pyval \<times> string"
  full_scale :: "pyval \<times> string"
  totalization_value :: "pyval \<times> string"
  valve_command :: string
  ramp_active :: bool
  ramp_time_s :: pyfloat
  measurements :: "(pyfloat \<times> nat) list"
  consigne_points :: "(pyfloat \<times> nat) list"

record mfc =
  tag_name :: "nat list"

record serial =
  port_name :: string
  is_open :: bool

record manager =
  serial_port :: "serial option"
  max_devices :: nat
  devices :: "device_state list"
  mfc_objs :: "mfc option list"
  poll_stop :: bool
  poll_thread :: bool
  trace :: "event list"
  clock_reads :: nat

type_synonym 'a action = "manager \<Rightarrow> (error + 'a) \<times> manager"


section \<open>Plumbing: sequencing, handlers, external calls\<close>

text \<open>
  A method returns normally (\<open>Inr\<close>) or raises (\<open>Inl\<close>); either way the mutations it
  made so far stay in the state.
\<close>

definition and_then :: "'a action \<Rightarrow> ('a \<Rightarrow> 'b action) \<Rightarrow> 'b action" where
  "and_then m f s = (case m s of (Inl e, s1) \<Rightarrow> (Inl e, s1) | (Inr x, s1) \<Rightarrow> f x s1)"

text \<open>\<^verbatim>\<open>try: m  except Exception: pass\<close>\<close>

definition swallow :: "'a action \<Rightarrow> manager \<Rightarrow> manager" where
  "swallow m s = snd (m s)"

definition call :: "(event list \<Rightarrow> event \<Rightarrow> 'a outcome) \<Rightarrow> event \<Rightarrow> 'a action" where
  "call answer ev s =
     ((case answer (trace s) ev of Raises \<Rightarrow> Inl DriverError | Returns x \<Rightarrow> Inr x),
      s\<lparr>trace := trace s @ [ev]\<rparr>)"

text \<open>\<^verbatim>\<open>datetime.datetime.now()\<close>\<close>

definition read_now :: "world \<Rightarrow> nat action" where
  "read_now w s = (Inr (now w (clock_reads s)), s\<lparr>clock_reads := Suc (clock_reads s)\<rparr>)"

definition update_device :: "nat \<Rightarrow> (device_state \<Rightarrow> device_state) \<Rightarrow> manager \<Rightarrow> manager" where
  "update_device i f s = s\<lparr>devices := (devices s)[i := f (devices s ! i)]\<rparr>"

definition is_connected :: "manager \<Rightarrow> bool" where
  "is_connected s = (case serial_port s of None \<Rightarrow> False | Some p \<Rightarrow> is_open p)"

section \<open>\<^verbatim>\<open>MassiqueManager\<close>\<close>

subsection \<open>Helpers\<close>

definition get :: "int \<Rightarrow> device_state action" where
  "get idx s =
     (if 0 \<le> idx \<and> idx < int (max_devices s) then (Inr (devices s ! nat idx), s)
      else (Inl IndexError, s))"

definition need_mfc :: "int \<Rightarrow> mfc action" where
  "need_mfc idx =
     and_then (get idx) (\<lambda>d s.
       case mfc_objs s ! nat idx of
         None \<Rightarrow> (Inl DeviceOff, s)
       | Some m \<Rightarrow> if \<not> active d then (Inl DeviceOff, s) else (Inr m, s))"

definition reset_data :: "device_state \<Rightarrow> device_state" where
  "reset_data d =
     d\<lparr>mesure := unknown, temperature := unknown, full_scale := unknown,
       valve_command := ''N/A'', measurements := [], consigne_points := [],
       totalization_value := unknown\<rparr>"

subsection \<open>Commands\<close>

definition set_tag :: "int \<Rightarrow> string \<Rightarrow> unit action" where
  "set_tag idx t =
     and_then (get idx) (\<lambda>_ s. (Inr (), update_device (nat idx) (\<lambda>d. d\<lparr>tag := pad8 t\<rparr>) s))"

definition send_consigne :: "world \<Rightarrow> int \<Rightarrow> pyval \<Rightarrow> unit action" where
  "send_consigne w idx v =
     and_then (get idx) (\<lambda>_.
     and_then (need_mfc idx) (\<lambda>m s.
       case py_float v of
         None \<Rightarrow> (Inr (), s)
       | Some c0 \<Rightarrow>
           let i = nat idx;
               fsv = full_scale_value (devices s ! i);
               c1 = (if fl_less c0 (Fin 0) then Fin 0 else c0);
               c = (if fl_truthy fsv \<and> fl_less fsv c1 then fsv else c1);
               s1 = update_device i (\<lambda>d. d\<lparr>consigne := c\<rparr>) s
           in if \<not> fl_truthy fsv then (Inr (), s1)
              else
                and_then (call (command w)
                            (Mfc (tag_name m)
                               (WriteSetpoint (fl_mul (fl_div c fsv) (Fin 100)) 57))) (\<lambda>_.
                and_then (read_now w) (\<lambda>t s3.
                  (Inr (), update_device i (\<lambda>d. d\<lparr>consigne_points :=
                              py_last_n 3600 (consigne_points d @ [(consigne d, t)])\<rparr>) s3))) s1))"

text \<open>The literal dictionary of \<^verbatim>\<open>set_vanne\<close>: \<^verbatim>\<open>"Ouverture"\<close> is 1, \<^verbatim>\<open>"Fermeture"\<close> is 2
  and the French word for regulation, whose second letter is the code point 233 (e acute),
  is 0.\<close>

definition regulation :: string where
  "regulation = ''R'' @ [CHR 0xE9] @ ''gulation''"

definition vanne_cmd :: "string \<Rightarrow> int option" where
  "vanne_cmd = map_of [(''Ouverture'', 1), (''Fermeture'', 2), (regulation, 0)]"

text \<open>\<^verbatim>\<open>mfc.red_vanne() or "N/A"\<close>\<close>

definition or_na :: "string option \<Rightarrow> string" where
  "or_na r = (case r of None \<Rightarrow> ''N/A'' | Some l \<Rightarrow> if l = [] then ''N/A'' else l)"

definition set_vanne :: "world \<Rightarrow> int \<Rightarrow> string \<Rightarrow> unit action" where
  "set_vanne w idx action =
     and_then (get idx) (\<lambda>_.
     and_then (need_mfc idx) (\<lambda>m s.
       case vanne_cmd action of
         None \<Rightarrow> (Inr (), s)
       | Some cmd \<Rightarrow>
           and_then (call (command w) (Mfc (tag_name m) (SetVanne cmd))) (\<lambda>_.
           and_then (call (valve_label w) (Mfc (tag_name m) RedVanne)) (\<lambda>l s2.
             (Inr (), update_device (nat idx) (\<lambda>d. d\<lparr>valve_command := or_na l\<rparr>) s2))) s))"

definition reset_totalization :: "world \<Rightarrow> int \<Rightarrow> unit action" where
  "reset_totalization w idx =
     and_then (get idx) (\<lambda>_.
     and_then (need_mfc idx) (\<lambda>m.
     and_then (call (command w) (Mfc (tag_name m) (WriteTotalizerControl 2))) (\<lambda>_ s.
       (Inr (), update_device (nat idx)
                  (\<lambda>d. d\<lparr>totalization_value := (Num (Fin 0), snd (totalization_value d))\<rparr>) s))))"

definition apply_ramp_settings :: "world \<Rightarrow> int \<Rightarrow> bool \<Rightarrow> pyval \<Rightarrow> unit action" where
  "apply_ramp_settings w idx ra rt =
     and_then (get idx) (\<lambda>_.
     and_then (need_mfc idx) (\<lambda>m s.
       let t0 = (case py_float rt of None \<Rightarrow> Fin 1 | Some t \<Rightarrow> t);
           t = (if fl_le t0 (Fin 0) then Fin 1 else t0);
           s1 = update_device (nat idx) (\<lambda>d. d\<lparr>ramp_active := ra, ramp_time_s := t\<rparr>) s
       in if \<not> ra then call (command w) (Mfc (tag_name m) (WriteRampControl 0)) s1
          else and_then (call (command w) (Mfc (tag_name m) (WriteRampControl 4))) (\<lambda>_.
                 call (command w) (Mfc (tag_name m) (WriteLinearRampValue t))) s1))"

definition select_gas :: "world \<Rightarrow> int \<Rightarrow> string \<Rightarrow> unit action" where
  "select_gas w idx name =
     and_then (get idx) (\<lambda>d.
     and_then (need_mfc idx) (\<lambda>m s.
       case map_of (gas_map d) name of
         None \<Rightarrow> (Inr (), s)
       | Some gaz_id \<Rightarrow>
           and_then (call (command w) (Mfc (tag_name m) (SelectGaz gaz_id))) (\<lambda>_ s1.
             (Inr (), update_device (nat idx) (\<lambda>d. d\<lparr>selected_gas := Some gaz_id\<rparr>) s1)) s))"


subsection \<open>Serial session\<close>

text \<open>
  \<^verbatim>\<open>_stop_polling\<close> sets the stop event and joins the polling thread; the join is taken
  to succeed within its timeout, so that the thread is no longer alive afterwards.
\<close>

definition stop_polling :: "manager \<Rightarrow> manager" where
  "stop_polling s = s\<lparr>poll_stop := True, poll_thread := False\<rparr>"

definition start_polling :: "manager \<Rightarrow> manager" where
  "start_polling s = (if poll_thread s then s else s\<lparr>poll_stop := False, poll_thread := True\<rparr>)"

definition switch_off :: "nat \<Rightarrow> manager \<Rightarrow> manager" where
  "switch_off i s =
     update_device i (\<lambda>d. d\<lparr>active := False\<rparr>) (s\<lparr>mfc_objs := (mfc_objs s)[i := None]\<rparr>)"

definition disconnect :: "world \<Rightarrow> manager \<Rightarrow> manager" where
  "disconnect w s =
     (let s1 = stop_polling s;
          s2 = (if is_connected s1 then swallow (call (command w) SerialClose) s1 else s1);
          s3 = s2\<lparr>serial_port := None\<rparr>
      in fold switch_off [0..<max_devices s3] s3)"

text \<open>\<^verbatim>\<open>open_serial_port\<close> turns the \<^verbatim>\<open>SerialException\<close> into a \<^verbatim>\<open>RuntimeError\<close>.\<close>

definition open_serial_port :: "world \<Rightarrow> string \<Rightarrow> serial action" where
  "open_serial_port w port s =
     (case call (command w) (SerialOpen port) s of
        (Inl _, s1) \<Rightarrow> (Inl TransportError, s1)
      | (Inr _, s1) \<Rightarrow> (Inr \<lparr>port_name = port, is_open = True\<rparr>, s1))"

definition connect :: "world \<Rightarrow> string \<Rightarrow> unit action" where
  "connect w port s =
     and_then (open_serial_port w port) (\<lambda>p s1.
       (Inr (), start_polling (s1\<lparr>serial_port := Some p\<rparr>))) (disconnect w s)"

subsection \<open>Device lifecycle\<close>

text \<open>\<^verbatim>\<open>raw.split(b"\x00")[0].decode("ascii", errors="ignore")\<close>\<close>

definition decode_name :: "nat list \<Rightarrow> string" where
  "decode_name raw = map char_of (filter (\<lambda>b. b < 128) (takeWhile (\<lambda>b. b \<noteq> 0) raw))"

text \<open>The body of the \<^verbatim>\<open>try\<close> inside the gas loop, for one gas identifier.\<close>

definition probe_gas :: "world \<Rightarrow> nat \<Rightarrow> mfc \<Rightarrow> int \<Rightarrow> unit action" where
  "probe_gas w i m gaz_id =
     and_then (call (command w) (Mfc (tag_name m) (SelectGaz gaz_id))) (\<lambda>_.
     and_then (call (gas_name w) (Mfc (tag_name m) (SelectNom gaz_id))) (\<lambda>raw s.
       let name = decode_name raw
       in (Inr (), if name \<noteq> []
                   then update_device i (\<lambda>d. d\<lparr>available_gases := available_gases d @ [name],
                                               gas_map := AList.update name gaz_id (gas_map d)\<rparr>) s
                   else s)))"

definition discover_gases :: "world \<Rightarrow> nat \<Rightarrow> mfc \<Rightarrow> manager \<Rightarrow> manager" where
  "discover_gases w i m s = fold (\<lambda>gaz_id. swallow (probe_gas w i m gaz_id)) [1, 2, 3, 4] s"

definition select_first_gas :: "world \<Rightarrow> nat \<Rightarrow> mfc \<Rightarrow> unit action" where
  "select_first_gas w i m s =
     (case available_gases (devices s ! i) of
        [] \<Rightarrow> (Inr (), s)
      | first # _ \<Rightarrow>
          (case map_of (gas_map (devices s ! i)) first of
             None \<Rightarrow> (Inl KeyError, s)
           | Some gaz_id \<Rightarrow>
               and_then (call (command w) (Mfc (tag_name m) (SelectGaz gaz_id))) (\<lambda>_ s1.
                 (Inr (), update_device i (\<lambda>d. d\<lparr>selected_gas := Some gaz_id\<rparr>) s1)) s))"

text \<open>
  The body of the outer \<^verbatim>\<open>try\<close> of \<^verbatim>\<open>activate\<close>: first what follows the gas loop
  (default gas, totalizer, ramp, valve, setpoint), then the whole body.
\<close>

definition configure_channel :: "world \<Rightarrow> int \<Rightarrow> mfc \<Rightarrow> unit action" where
  "configure_channel w idx m =
     and_then (select_first_gas w (nat idx) m) (\<lambda>_.
     and_then (call (command w) (Mfc (tag_name m) (WriteTotalizerControl 1))) (\<lambda>_ s6.
     and_then (apply_ramp_settings w idx (ramp_active (devices s6 ! nat idx))
                 (Num (ramp_time_s (devices s6 ! nat idx)))) (\<lambda>_.
     and_then (set_vanne w idx regulation) (\<lambda>_.
       send_consigne w idx (Num (Fin 0)))) s6))"

definition activate_body :: "world \<Rightarrow> int \<Rightarrow> unit action" where
  "activate_body w idx =
     and_then (call (command w) MfcNew) (\<lambda>_ s0.
       let i = nat idx;
           m = \<lparr>tag_name = pack_tag_name (tag (devices s0 ! i))\<rparr>
       in and_then (call (command w) (Mfc (tag_name m) GetAddress)) (\<lambda>_ s1.
            let s2 = update_device i (\<lambda>d. d\<lparr>active := True\<rparr>) s1;
                s3 = s2\<lparr>mfc_objs := (mfc_objs s2)[i := Some m]\<rparr>;
                s4 = update_device i (\<lambda>d. d\<lparr>available_gases := [], gas_map := []\<rparr>) s3;
                s5 = discover_gases w i m s4
            in configure_channel w idx m s5) s0)"

definition activate :: "world \<Rightarrow> int \<Rightarrow> unit action" where
  "activate w idx =
     and_then (get idx) (\<lambda>_ s.
       if \<not> is_connected s then (Inl NotConnected, s)
       else (case activate_body w idx s of
               (Inl e, s1) \<Rightarrow> (Inl e, switch_off (nat idx) s1)
             | (Inr x, s1) \<Rightarrow> (Inr x, s1)))"

text \<open>The best-effort shutdown inside the \<^verbatim>\<open>try\<close> of \<^verbatim>\<open>deactivate\<close>.\<close>

definition shutdown :: "world \<Rightarrow> int \<Rightarrow> mfc \<Rightarrow> unit action" where
  "shutdown w idx m =
     and_then (send_consigne w idx (Num (Fin 0))) (\<lambda>_.
       call (command w) (Mfc (tag_name m) (WriteRampControl 0)))"

definition deactivate :: "world \<Rightarrow> int \<Rightarrow> unit action" where
  "deactivate w idx =
     and_then (get idx) (\<lambda>d s.
       let i = nat idx;
           s1 = (case mfc_objs s ! i of
                   None \<Rightarrow> s
                 | Some m \<Rightarrow> if active d then swallow (shutdown w idx m) s else s);
           s2 = switch_off i s1
       in (Inr (), update_device i reset_data s2))"

subsection \<open>Polling\<close>

text \<open>\<^verbatim>\<open>mfc.read_...() or (0, "N/A")\<close>\<close>

definition or_unknown :: "(pyval \<times> string) option \<Rightarrow> pyval \<times> string" where
  "or_unknown r = (case r of None \<Rightarrow> unknown | Some p \<Rightarrow> p)"

text \<open>What \<^verbatim>\<open>_poll_one\<close> does with the five answers once the bus exchange is over.\<close>

definition poll_store ::
  "world \<Rightarrow> int \<Rightarrow> pyval \<times> string \<Rightarrow> pyval \<times> string \<Rightarrow> pyval \<times> string \<Rightarrow> pyval \<times> string \<Rightarrow> string
     \<Rightarrow> unit action" where
  "poll_store w idx fr tmp fs tot valve s =
     (let i = nat idx;
          s1 = update_device i (\<lambda>d. d\<lparr>mesure := fr, temperature := tmp\<rparr>) s
      in case py_float (or_zero (fst fs)) of
           None \<Rightarrow> (Inl ValueError, s1)
         | Some f \<Rightarrow>
             let s2 = update_device i (\<lambda>d. d\<lparr>full_scale_value := f, full_scale := fs,
                                             totalization_value := tot, valve_command := valve\<rparr>) s1
             in and_then (read_now w) (\<lambda>t s3.
                  let mv = (case py_float (fst (mesure (devices s3 ! i))) of
                              None \<Rightarrow> Fin 0 | Some x \<Rightarrow> x);
                      s4 = update_device i (\<lambda>d. d\<lparr>measurements :=
                                 py_last_n 3600 (measurements d @ [(mv, t)])\<rparr>) s3;
                      s5 = update_device i (\<lambda>d. d\<lparr>consigne_points :=
                                 py_last_n 3600 (consigne_points d @ [(consigne d, t)])\<rparr>) s4;
                      d5 = devices s5 ! i
                  in (Inr (), if fl_truthy (full_scale_value d5) \<and> fl_truthy (consigne d5)
                              then swallow (send_consigne w idx (Num (consigne d5))) s5
                              else s5)) s2)"

definition poll_one :: "world \<Rightarrow> int \<Rightarrow> unit action" where
  "poll_one w idx =
     and_then (get idx) (\<lambda>_.
     and_then (need_mfc idx) (\<lambda>m s.
       let i = nat idx;
           d = devices s ! i;
           s1 = (if selected_gas d = None \<and> available_gases d \<noteq> []
                 then update_device i (\<lambda>d. d\<lparr>selected_gas :=
                        map_of (gas_map d) (hd (available_gases d))\<rparr>) s
                 else s)
       in case selected_gas (devices s1 ! i) of
            None \<Rightarrow> (Inr (), s1)
          | Some g \<Rightarrow>
              and_then (call (reading w) (Mfc (tag_name m) (ReadFlowRate g))) (\<lambda>fr.
              and_then (call (reading w) (Mfc (tag_name m) ReadDynamic)) (\<lambda>tmp.
              and_then (call (reading w) (Mfc (tag_name m) (ReadFullScaleFlowRate g))) (\<lambda>fs.
              and_then (call (reading w) (Mfc (tag_name m) ReadTotalizerValue)) (\<lambda>tot.
              and_then (call (valve_label w) (Mfc (tag_name m) RedVanne)) (\<lambda>valve.
                poll_store w idx (or_unknown fr) (or_unknown tmp) (or_unknown fs)
                  (or_unknown tot) (or_na valve)))))) s1))"

text \<open>One iteration of the \<^verbatim>\<open>for\<close> of \<^verbatim>\<open>_poll_loop\<close>, with its \<^verbatim>\<open>try\<close>/\<^verbatim>\<open>except\<close>.\<close>

definition poll_visit :: "world \<Rightarrow> nat \<Rightarrow> manager \<Rightarrow> manager" where
  "poll_visit w i s =
     (if \<not> active (devices s ! i) then s
      else (case poll_one w (int i) s of
              (Inl _, s1) \<Rightarrow> update_device i reset_data s1
            | (Inr _, s1) \<Rightarrow> s1))"

definition poll_cycle :: "world \<Rightarrow> manager \<Rightarrow> manager" where
  "poll_cycle w s = fold (poll_visit w) [0..<max_devices s] s"

text \<open>
  \<^verbatim>\<open>_poll_loop\<close> runs until the stop event is set. With \<open>n\<close> cycles of fuel the result is
  \<open>Some\<close> final state when the loop has returned, \<open>None\<close> when it is still running.
\<close>

fun poll_loop :: "world \<Rightarrow> nat \<Rightarrow> manager \<Rightarrow> manager option" where
  "poll_loop w 0 s = (if poll_stop s then Some s else None)"
| "poll_loop w (Suc n) s = (if poll_stop s then Some s else poll_loop w n (poll_cycle w s))"


subsection \<open>Construction and snapshot\<close>

fun decimal :: "nat \<Rightarrow> string" where
  "decimal n =
     (if n < 10 then [char_of (48 + n)] else decimal (n div 10) @ [char_of (48 + n mod 10)])"

declare decimal.simps [simp del]

text \<open>\<^verbatim>\<open>f"MFC{i+1:05d}"[:8].ljust(8, "_")\<close>\<close>

definition default_tag :: "nat \<Rightarrow> string" where
  "default_tag i =
     (let t = decimal (i + 1)
      in pad8 (''MFC'' @ replicate (5 - length t) (CHR ''0'') @ t))"

definition new_device :: "int \<Rightarrow> string \<Rightarrow> device_state" where
  "new_device i t =
     \<lparr>index = i, tag = t, active = False, selected_gas = None, available_gases = [],
      gas_map = [], consigne = Fin 0, full_scale_value = Fin 0, mesure = unknown,
      temperature = unknown, full_scale = unknown, totalization_value = unknown,
      valve_command = ''N/A'', ramp_active = False, ramp_time_s = Fin 1, measurements = [],
      consigne_points = []\<rparr>"

definition init :: "string list \<Rightarrow> nat \<Rightarrow> manager" where
  "init tags n =
     \<lparr>serial_port = None, max_devices = n,
      devices = map (\<lambda>i. new_device (int i) (if i < length tags then tags ! i else default_tag i))
                  [0..<n],
      mfc_objs = replicate n None, poll_stop = False, poll_thread = False, trace = [],
      clock_reads = 0\<rparr>"

record device_view =
  view_index :: int
  view_tag :: string
  view_active :: bool
  view_consigne :: pyfloat
  view_full_scale_value :: pyfloat
  view_mesure :: "pyval \<times> string"
  view_total :: "pyval \<times> string"
  view_valve :: string
  view_ramp :: "bool \<times> pyfloat"
  view_gases :: "string list"
  view_selected_gas :: "int option"

record snapshot_view =
  view_connected :: bool
  view_devices :: "device_view list"

definition device_snapshot :: "device_state \<Rightarrow> device_view" where
  "device_snapshot d =
     \<lparr>view_index = index d, view_tag = tag d, view_active = active d,
      view_consigne = consigne d, view_full_scale_value = full_scale_value d,
      view_mesure = mesure d, view_total = totalization_value d,
      view_valve = valve_command d, view_ramp = (ramp_active d, ramp_time_s d),
      view_gases = available_gases d, view_selected_gas = selected_gas d\<rparr>"

definition snapshot :: "manager \<Rightarrow> snapshot_view" where
  "snapshot s = \<lparr>view_connected = is_connected s, view_devices = map device_snapshot (devices s)\<rparr>"

section \<open>The control surface (\<^verbatim>\<open>backend/app.py\<close>, \<^verbatim>\<open>backend/settings.py\<close>)\<close>

definition MAX_MASSIQUES :: nat where
  "MAX_MASSIQUES = 12"

text \<open>
  \<^verbatim>\<open>load_json\<close> creates the configuration directory first (outside any \<^verbatim>\<open>try\<close>) and
  then reads the file; \<open>tags_json\<close> of the world is the \<^verbatim>\<open>"tags"\<close> entry of what it
  returns, when that is a list (\<open>Raises\<close> when the file holds no dictionary).
\<close>

definition ensure_dir :: "world \<Rightarrow> unit action" where
  "ensure_dir w s =
     (case call (command w) EnsureDir s of
        (Inl _, s1) \<Rightarrow> (Inl OSError, s1)
      | (Inr x, s1) \<Rightarrow> (Inr x, s1))"

definition default_tags :: "string list" where
  "default_tags = map default_tag [0..<MAX_MASSIQUES]"

definition load_tags :: "world \<Rightarrow> string list action" where
  "load_tags w =
     and_then (ensure_dir w) (\<lambda>_ s.
       case tags_json w (trace s) of
         Raises \<Rightarrow> (Inl AttributeError, s)
       | Returns None \<Rightarrow> (Inr default_tags, s)
       | Returns (Some ts) \<Rightarrow>
           (Inr (if length ts = MAX_MASSIQUES then map pad8 ts else default_tags), s))"

definition save_tags :: "world \<Rightarrow> string list \<Rightarrow> unit action" where
  "save_tags w ts =
     and_then (ensure_dir w) (\<lambda>_ s.
       (Inr (), swallow (call (command w) (SaveTags (map pad8 ts))) s))"

text \<open>\<^verbatim>\<open>xs[idx] = v\<close> on a Python list: a negative index counts from the end.\<close>

definition py_setitem :: "'a list \<Rightarrow> int \<Rightarrow> 'a \<Rightarrow> error + 'a list" where
  "py_setitem xs idx v =
     (let n = int (length xs);
          j = (if idx < 0 then n + idx else idx)
      in if 0 \<le> j \<and> j < n then Inr (xs[nat j := v]) else Inl IndexError)"

datatype api_value = Snapshot snapshot_view | Status bool

text \<open>\<^verbatim>\<open>m(...); return self.mgr.snapshot()\<close>\<close>

definition returning_snapshot :: "unit action \<Rightarrow> api_value action" where
  "returning_snapshot m = and_then m (\<lambda>_ s. (Inr (Snapshot (snapshot s)), s))"

definition api_connect :: "world \<Rightarrow> string \<Rightarrow> api_value action" where
  "api_connect w port = returning_snapshot (connect w port)"

definition api_disconnect :: "world \<Rightarrow> api_value action" where
  "api_disconnect w = returning_snapshot (\<lambda>s. (Inr (), disconnect w s))"

definition api_set_tag :: "world \<Rightarrow> int \<Rightarrow> string \<Rightarrow> api_value action" where
  "api_set_tag w idx t =
     and_then (load_tags w) (\<lambda>tags s.
       let tag8 = pad8 t
       in case py_setitem tags idx tag8 of
            Inl e \<Rightarrow> (Inl e, s)
          | Inr tags1 \<Rightarrow>
              and_then (save_tags w tags1) (\<lambda>_.
              and_then (set_tag idx tag8) (\<lambda>_ s2. (Inr (Status True), s2))) s)"

definition api_toggle_device :: "world \<Rightarrow> int \<Rightarrow> bool \<Rightarrow> api_value action" where
  "api_toggle_device w idx on =
     returning_snapshot (if on then activate w idx else deactivate w idx)"

definition api_set_consigne :: "world \<Rightarrow> int \<Rightarrow> pyval \<Rightarrow> api_value action" where
  "api_set_consigne w idx v = returning_snapshot (send_consigne w idx v)"

definition api_set_vanne :: "world \<Rightarrow> int \<Rightarrow> string \<Rightarrow> api_value action" where
  "api_set_vanne w idx action = returning_snapshot (set_vanne w idx action)"

definition api_reset_total :: "world \<Rightarrow> int \<Rightarrow> api_value action" where
  "api_reset_total w idx = returning_snapshot (reset_totalization w idx)"

definition api_set_ramp :: "world \<Rightarrow> int \<Rightarrow> bool \<Rightarrow> pyval \<Rightarrow> api_value action" where
  "api_set_ramp w idx ra rt = returning_snapshot (apply_ramp_settings w idx ra rt)"

definition api_select_gas :: "world \<Rightarrow> int \<Rightarrow> string \<Rightarrow> api_value action" where
  "api_select_gas w idx name = returning_snapshot (select_gas w idx name)"

text \<open>The mutating calls of the control surface, as the presentation layer issues them.\<close>

datatype api_request =
    Connect string
  | Disconnect
  | SetTag int string
  | ToggleDevice int bool
  | SetConsigne int pyval
  | SetVanneMode int string
  | ResetTotal int
  | SetRamp int bool pyval
  | SelectGas int string

fun api_call :: "world \<Rightarrow> api_request \<Rightarrow> api_value action" where
  "api_call w (Connect port) = api_connect w port"
| "api_call w Disconnect = api_disconnect w"
| "api_call w (SetTag idx t) = api_set_tag w idx t"
| "api_call w (ToggleDevice idx on) = api_toggle_device w idx on"
| "api_call w (SetConsigne idx v) = api_set_consigne w idx v"
| "api_call w (SetVanneMode idx action) = api_set_vanne w idx action"
| "api_call w (ResetTotal idx) = api_reset_total w idx"
| "api_call w (SetRamp idx ra rt) = api_set_ramp w idx ra rt"
| "api_call w (SelectGas idx name) = api_select_gas w idx name"

text \<open>
  What can happen to a supervisor: a call of the control surface (an exception goes back
  to the caller and the process goes on) or one cycle of the polling thread. The two
  threads are interleaved at this granularity.
\<close>

datatype activity = Call api_request | PollCycle

fun perform :: "world \<Rightarrow> activity \<Rightarrow> manager \<Rightarrow> manager" where
  "perform w (Call r) s = snd (api_call w r s)"
| "perform w PollCycle s = (if poll_thread s \<and> \<not> poll_stop s then poll_cycle w s else s)"

definition run :: "world \<Rightarrow> activity list \<Rightarrow> manager \<Rightarrow> manager" where
  "run w acts s = fold (perform w) acts s"


section \<open>State predicates\<close>

text \<open>
  Both lists of the manager have \<open>max_devices\<close> entries (they are built so and never
  resized); a device is \<open>bounded\<close> when its two histories respect the cap.
\<close>

definition well_formed :: "manager \<Rightarrow> bool" where
  "well_formed s \<longleftrightarrow> length (devices s) = max_devices s \<and> length (mfc_objs s) = max_devices s"

definition bounded :: "device_state \<Rightarrow> bool" where
  "bounded d \<longleftrightarrow> length (measurements d) \<le> 3600 \<and> length (consigne_points d) \<le> 3600"

text \<open>
  \<open>local_step i\<close>: the step touched the session and the other channels not at all and kept
  the histories of channel \<open>i\<close> within the cap; \<open>quiet_step i\<close>: moreover it kept the
  bindings and the active flag of channel \<open>i\<close>.
\<close>

definition local_step :: "nat \<Rightarrow> manager \<Rightarrow> manager \<Rightarrow> bool" where
  "local_step i s s' \<longleftrightarrow>
     serial_port s' = serial_port s \<and> max_devices s' = max_devices s \<and>
     poll_stop s' = poll_stop s \<and> poll_thread s' = poll_thread s \<and>
     length (devices s') = length (devices s) \<and> length (mfc_objs s') = length (mfc_objs s) \<and>
     (\<forall>j. j \<noteq> i \<longrightarrow> devices s' ! j = devices s ! j \<and> mfc_objs s' ! j = mfc_objs s ! j) \<and>
     (bounded (devices s ! i) \<longrightarrow> bounded (devices s' ! i))"

definition quiet_step :: "nat \<Rightarrow> manager \<Rightarrow> manager \<Rightarrow> bool" where
  "quiet_step i s s' \<longleftrightarrow>
     local_step i s s' \<and> mfc_objs s' = mfc_objs s \<and>
     active (devices s' ! i) = active (devices s ! i)"


text \<open>The gas menu, the selected gas and the cached full-scale number of a channel.\<close>

definition same_menu :: "device_state \<Rightarrow> device_state \<Rightarrow> bool" where
  "same_menu d d' \<longleftrightarrow>
     selected_gas d' = selected_gas d \<and> available_gases d' = available_gases d \<and>
     gas_map d' = gas_map d \<and> full_scale_value d' = full_scale_value d"

text \<open>
  What holds in every state the supervisor can reach: both lists are well formed, the
  histories respect the cap, and without an open session every channel is inactive and
  unbound.
\<close>

definition all_off :: "manager \<Rightarrow> bool" where
  "all_off s \<longleftrightarrow> (\<forall>j < max_devices s. \<not> active (devices s ! j) \<and> mfc_objs s ! j = None)"

definition invariant :: "manager \<Rightarrow> bool" where
  "invariant s \<longleftrightarrow>
     well_formed s \<and> (\<forall>j < length (devices s). bounded (devices s ! j)) \<and>
     (\<not> is_connected s \<longrightarrow> all_off s)"

text \<open>
  Appending to a history as the specification words it: the entry goes to the end, and
  when that exceeds the cap the oldest entry is evicted.
\<close>

definition spec_append :: "nat \<Rightarrow> 'a list \<Rightarrow> 'a \<Rightarrow> 'a list" where
  "spec_append cap h e = (if length (h @ [e]) > cap then tl (h @ [e]) else h @ [e])"

section \<open>A test bench\<close>

text \<open>
  A driver that answers every call: gas 1 is named \<^verbatim>\<open>N2\<close>, gas 2 \<^verbatim>\<open>Ar\<close>, gases 3 and 4
  have no name; the flow is 12.5 and the full scale 100, both in \<^verbatim>\<open>ln/min\<close>; the other
  readings are unavailable. The settings file holds no tags.
\<close>

definition bench_reading :: "event \<Rightarrow> (pyval \<times> string) option" where
  "bench_reading ev =
     (case ev of
        Mfc _ (ReadFlowRate _) \<Rightarrow> Some (Num (Fin 12.5), ''ln/min'')
      | Mfc _ (ReadFullScaleFlowRate _) \<Rightarrow> Some (Num (Fin 100), ''ln/min'')
      | _ \<Rightarrow> None)"

definition bench_gas_name :: "event \<Rightarrow> nat list" where
  "bench_gas_name ev =
     (case ev of
        Mfc _ (SelectNom g) \<Rightarrow> (if g = 1 then [78, 50, 0, 0] else if g = 2 then [65, 114, 0] else [0])
      | _ \<Rightarrow> [])"

definition bench_world :: world where
  "bench_world =
     \<lparr>command = (\<lambda>_ _. Returns ()),
      reading = (\<lambda>_ ev. Returns (bench_reading ev)),
      valve_label = (\<lambda>_ _. Returns (Some ''Regulating'')),
      gas_name = (\<lambda>_ ev. Returns (bench_gas_name ev)),
      now = (\<lambda>n. n),
      tags_json = (\<lambda>_. Returns None)\<rparr>"

text \<open>The same bench with a bus on which every exchange fails.\<close>

definition dead_world :: world where
  "dead_world =
     bench_world\<lparr>command := (\<lambda>_ ev. case ev of Mfc _ _ \<Rightarrow> Raises | _ \<Rightarrow> Returns ()),
       reading := (\<lambda>_ _. Raises), valve_label := (\<lambda>_ _. Raises), gas_name := (\<lambda>_ _. Raises)\<rparr>"

text \<open>
  One channel, connected on \<^verbatim>\<open>COM3\<close>: \<open>idle_state\<close> before the channel is switched on,
  \<open>live_state\<close> with the channel active on gas 1 and a known full scale of 100,
  \<open>fresh_state\<close> with the channel active and the full scale not read yet.
\<close>

definition bench_mfc :: mfc where
  "bench_mfc = \<lparr>tag_name = pack_tag_name ''MFC00001''\<rparr>"

definition idle_state :: manager where
  "idle_state =
     \<lparr>serial_port = Some \<lparr>port_name = ''COM3'', is_open = True\<rparr>, max_devices = 1,
      devices = [new_device 0 ''MFC00001''], mfc_objs = [None], poll_stop = False,
      poll_thread = True, trace = [], clock_reads = 0\<rparr>"

definition fresh_state :: manager where
  "fresh_state =
     idle_state\<lparr>devices := [(new_device 0 ''MFC00001'')\<lparr>active := True, selected_gas := Some 1,
                    available_gases := [''N2'', ''Ar''], gas_map := [(''N2'', 1), (''Ar'', 2)],
                    valve_command := ''Regulating''\<rparr>],
       mfc_objs := [Some bench_mfc]\<rparr>"

definition live_state :: manager where
  "live_state =
     update_device 0 (\<lambda>d. d\<lparr>full_scale_value := Fin 100, full_scale := (Num (Fin 100), ''ln/min'')\<rparr>)
       fresh_state"

text \<open>The bench with a device that refuses every setpoint write.\<close>

definition refusing_world :: world where
  "refusing_world =
     bench_world\<lparr>command := (\<lambda>_ ev. case ev of Mfc _ (WriteSetpoint _ _) \<Rightarrow> Raises
                                         | _ \<Rightarrow> Returns ())\<rparr>"


text \<open>
  The state a fresh one-channel supervisor reaches on the bench by connecting to
  \<^verbatim>\<open>COM3\<close> and switching channel 0 on, and the driver calls made on the way.
\<close>

definition bench_start :: manager where
  "bench_start =
     run bench_world [Call (Connect ''COM3''), Call (ToggleDevice 0 True)] (init [''MFC00001''] 1)"

definition bench_log :: "event list" where
  "bench_log =
     [SerialOpen ''COM3'', MfcNew, Mfc (tag_name bench_mfc) GetAddress,
      Mfc (tag_name bench_mfc) (SelectGaz 1), Mfc (tag_name bench_mfc) (SelectNom 1),
      Mfc (tag_name bench_mfc) (SelectGaz 2), Mfc (tag_name bench_mfc) (SelectNom 2),
      Mfc (tag_name bench_mfc) (SelectGaz 3), Mfc (tag_name bench_mfc) (SelectNom 3),
      Mfc (tag_name bench_mfc) (SelectGaz 4), Mfc (tag_name bench_mfc) (SelectNom 4),
      Mfc (tag_name bench_mfc) (SelectGaz 1),
      Mfc (tag_name bench_mfc) (WriteTotalizerControl 1),
      Mfc (tag_name bench_mfc) (WriteRampControl 0),
      Mfc (tag_name bench_mfc) (SetVanne 0), Mfc (tag_name bench_mfc) RedVanne]"

text \<open>
  The live bench channel after an hour of polling: both histories are full, their
  oldest entry is the value 7 at time 0, and the clock has been read 3600 times.
\<close>

definition full_state :: manager where
  "full_state =
     (update_device 0
        (\<lambda>d. d\<lparr>measurements := (Fin 7, 0) # replicate 3599 (Fin 0, 1),
                consigne_points := (Fin 7, 0) # replicate 3599 (Fin 0, 1)\<rparr>) live_state)
     \<lparr>clock_reads := 3600\<rparr>"

text \<open>The bench after one more step, a polling cycle, and the five reads of that cycle.\<close>

definition bench_polled :: manager where
  "bench_polled =
     run bench_world [Call (Connect ''COM3''), Call (ToggleDevice 0 True), PollCycle]
       (init [''MFC00001''] 1)"

definition bench_reads :: "event list" where
  "bench_reads =
     [Mfc (tag_name bench_mfc) (ReadFlowRate 1), Mfc (tag_name bench_mfc) ReadDynamic,
      Mfc (tag_name bench_mfc) (ReadFullScaleFlowRate 1),
      Mfc (tag_name bench_mfc) ReadTotalizerValue, Mfc (tag_name bench_mfc) RedVanne]"

section \<open>Properties\<close>

subsection \<open>Unfolding the plumbing\<close>

lemma and_then_call:
  "and_then (call a ev) f s =
     (case a (trace s) ev of
        Raises \<Rightarrow> (Inl DriverError, s\<lparr>trace := trace s @ [ev]\<rparr>)
      | Returns x \<Rightarrow> f x (s\<lparr>trace := trace s @ [ev]\<rparr>))"
  by (simp add: and_then_def call_def split: outcome.splits)

lemma and_then_get:
  "and_then (get idx) f s =
     (if 0 \<le> idx \<and> idx < int (max_devices s) then f (devices s ! nat idx) s
      else (Inl IndexError, s))"
  by (simp add: and_then_def get_def)

lemma and_then_need_mfc:
  "and_then (need_mfc idx) f s =
     (if 0 \<le> idx \<and> idx < int (max_devices s)
      then (case mfc_objs s ! nat idx of
              None \<Rightarrow> (Inl DeviceOff, s)
            | Some m \<Rightarrow> if active (devices s ! nat idx) then f m s else (Inl DeviceOff, s))
      else (Inl IndexError, s))"
  by (simp add: and_then_def need_mfc_def get_def split: option.splits)

lemma and_then_read_now:
  "and_then (read_now w) f s = f (now w (clock_reads s)) (s\<lparr>clock_reads := Suc (clock_reads s)\<rparr>)"
  by (simp add: and_then_def read_now_def)

lemmas unfold_steps = and_then_get and_then_need_mfc and_then_call and_then_read_now

lemma snd_call: "snd (call a ev s) = s\<lparr>trace := trace s @ [ev]\<rparr>"
  by (simp add: call_def)

lemma length_py_last_n: "length (py_last_n n xs) \<le> n"
  by (simp add: py_last_n_def)

text \<open>Steps that leave the session, the other channels, the bindings and the active flag alone.\<close>

lemma quiet_refl: "quiet_step i s s"
  by (simp add: quiet_step_def local_step_def)

lemma quiet_trans: "quiet_step i s s1 \<Longrightarrow> quiet_step i s1 s2 \<Longrightarrow> quiet_step i s s2"
  by (simp add: quiet_step_def local_step_def)

lemma quiet_trace: "quiet_step i s0 s \<Longrightarrow> quiet_step i s0 (s\<lparr>trace := t\<rparr>)"
  by (simp add: quiet_step_def local_step_def)

lemma quiet_clock: "quiet_step i s0 s \<Longrightarrow> quiet_step i s0 (s\<lparr>clock_reads := t\<rparr>)"
  by (simp add: quiet_step_def local_step_def)

lemma quiet_update:
  assumes "quiet_step i s0 s"
    "\<forall>d. active (f d) = active d \<and> (bounded d \<longrightarrow> bounded (f d))"
  shows "quiet_step i s0 (update_device i f s)"
proof (cases "i < length (devices s)")
  case True
  with assms show ?thesis
    by (simp add: quiet_step_def local_step_def update_device_def)
next
  case False
  with assms(1) show ?thesis
    by (simp add: quiet_step_def local_step_def update_device_def list_update_beyond)
qed

lemmas quiet_rules = quiet_refl quiet_update quiet_trace quiet_clock bounded_def length_py_last_n

lemma send_consigne_quiet:
  assumes "quiet_step (nat idx) s0 s"
  shows "quiet_step (nat idx) s0 (snd (send_consigne w idx v s))"
proof -
  have "quiet_step (nat idx) s (snd (send_consigne w idx v s))"
    unfolding send_consigne_def unfold_steps Let_def
    by (simp split: option.splits outcome.splits add: quiet_rules)
  with assms show ?thesis by (rule quiet_trans)
qed

lemma set_vanne_quiet:
  assumes "quiet_step (nat idx) s0 s"
  shows "quiet_step (nat idx) s0 (snd (set_vanne w idx a s))"
proof -
  have "quiet_step (nat idx) s (snd (set_vanne w idx a s))"
    unfolding set_vanne_def unfold_steps Let_def
    by (simp split: option.splits outcome.splits add: quiet_rules)
  with assms show ?thesis by (rule quiet_trans)
qed

lemma reset_totalization_quiet:
  assumes "quiet_step (nat idx) s0 s"
  shows "quiet_step (nat idx) s0 (snd (reset_totalization w idx s))"
proof -
  have "quiet_step (nat idx) s (snd (reset_totalization w idx s))"
    unfolding reset_totalization_def unfold_steps Let_def
    by (simp split: option.splits outcome.splits add: quiet_rules)
  with assms show ?thesis by (rule quiet_trans)
qed

lemma apply_ramp_settings_quiet:
  assumes "quiet_step (nat idx) s0 s"
  shows "quiet_step (nat idx) s0 (snd (apply_ramp_settings w idx ra rt s))"
proof -
  have "quiet_step (nat idx) s (snd (apply_ramp_settings w idx ra rt s))"
    unfolding apply_ramp_settings_def unfold_steps Let_def
    by (simp split: option.splits outcome.splits add: quiet_rules snd_call)
  with assms show ?thesis by (rule quiet_trans)
qed

lemma select_gas_quiet:
  assumes "quiet_step (nat idx) s0 s"
  shows "quiet_step (nat idx) s0 (snd (select_gas w idx name s))"
proof -
  have "quiet_step (nat idx) s (snd (select_gas w idx name s))"
    unfolding select_gas_def unfold_steps Let_def
    by (simp split: option.splits outcome.splits add: quiet_rules)
  with assms show ?thesis by (rule quiet_trans)
qed

lemma set_tag_quiet:
  assumes "quiet_step (nat idx) s0 s"
  shows "quiet_step (nat idx) s0 (snd (set_tag idx t s))"
proof -
  have "quiet_step (nat idx) s (snd (set_tag idx t s))"
    unfolding set_tag_def unfold_steps Let_def
    by (simp split: option.splits outcome.splits add: quiet_rules)
  with assms show ?thesis by (rule quiet_trans)
qed

lemma poll_store_quiet:
  assumes "quiet_step (nat idx) s0 s"
  shows "quiet_step (nat idx) s0 (snd (poll_store w idx fr tmp fs tot valve s))"
proof -
  have "quiet_step (nat idx) s (snd (poll_store w idx fr tmp fs tot valve s))"
    unfolding poll_store_def unfold_steps Let_def swallow_def
    by (simp split: option.splits outcome.splits add: quiet_rules send_consigne_quiet)
  with assms show ?thesis by (rule quiet_trans)
qed

lemma poll_one_quiet:
  assumes "quiet_step (nat idx) s0 s"
  shows "quiet_step (nat idx) s0 (snd (poll_one w idx s))"
proof -
  have "quiet_step (nat idx) s (snd (poll_one w idx s))"
    unfolding poll_one_def unfold_steps Let_def
    by (simp split: option.splits outcome.splits add: quiet_rules poll_store_quiet)
  with assms show ?thesis by (rule quiet_trans)
qed

lemma poll_visit_quiet:
  assumes "quiet_step i s0 s"
  shows "quiet_step i s0 (poll_visit w i s)"
proof -
  have "quiet_step (nat (int i)) s (snd (poll_one w (int i) s))"
    by (rule poll_one_quiet) (rule quiet_refl)
  then have "quiet_step i s (poll_visit w i s)"
    by (cases "poll_one w (int i) s")
       (simp add: poll_visit_def quiet_rules reset_data_def split: sum.splits)
  with assms show ?thesis by (rule quiet_trans)
qed



subsection \<open>Setpoint\<close>

lemmas bench_states = idle_state_def fresh_state_def live_state_def new_device_def
  update_device_def bench_mfc_def

text \<open>
  Claim C2, as amended. On an active channel whose full scale \<open>F\<close> is known and positive,
  \<^verbatim>\<open>send_consigne\<close> with a value \<open>v\<close> that \<^verbatim>\<open>float()\<close> accepts and that is not NaN leaves
  a stored setpoint in \<open>[0, F]\<close>: \<open>F\<close> when \<open>v > F\<close> (plus infinity included), \<open>0\<close> when
  \<open>v < 0\<close> (minus infinity included) and \<open>v\<close> itself otherwise, whether or not the device
  write that follows succeeds; for a finite \<open>F\<close> the stored setpoint is a finite number
  between 0 and \<open>F\<close>. For NaN both comparisons of the clamp are false and NaN is what is
  stored.
\<close>

theorem send_consigne_clamps:
  assumes "0 \<le> idx" "idx < int (max_devices s)" "well_formed s"
    "active (devices s ! nat idx)" "mfc_objs s ! nat idx = Some m"
    "full_scale_value (devices s ! nat idx) = F" "fl_less (Fin 0) F"
  shows "let c = consigne (devices (snd (send_consigne w idx (Num v) s)) ! nat idx)
         in (v \<noteq> NaN \<longrightarrow>
               fl_le (Fin 0) c \<and> fl_le c F \<and>
               (\<forall>f. F = Fin f \<longrightarrow> (\<exists>r. c = Fin r \<and> 0 \<le> r \<and> r \<le> f)) \<and>
               (fl_less F v \<longrightarrow> c = F) \<and> (fl_less v (Fin 0) \<longrightarrow> c = Fin 0) \<and>
               (\<not> fl_less F v \<and> \<not> fl_less v (Fin 0) \<longrightarrow> c = v)) \<and>
            (v = NaN \<longrightarrow> c = NaN)"
proof -
  have len: "nat idx < length (devices s)"
    using assms by (simp add: well_formed_def)
  show ?thesis
    using assms(1,2,4-7) len
    by (cases v; cases F)
       (auto simp add: send_consigne_def unfold_steps Let_def update_device_def fl_truthy_def
          fl_le_def split: option.splits outcome.splits)
qed

theorem send_consigne_clamps_witness:
  "full_scale_value (devices live_state ! 0) = Fin 100 \<and>
   consigne (devices (snd (send_consigne bench_world 0 (Num (Fin 250)) live_state)) ! 0) = Fin 100 \<and>
   consigne (devices (snd (send_consigne dead_world 0 (Num (Fin (- 3))) live_state)) ! 0) = Fin 0 \<and>
   consigne (devices (snd (send_consigne bench_world 0 (Num (Fin 40)) live_state)) ! 0) = Fin 40 \<and>
   consigne (devices (snd (send_consigne bench_world 0 (Num PInf) live_state)) ! 0) = Fin 100 \<and>
   consigne (devices (snd (send_consigne bench_world 0 (Num NInf) live_state)) ! 0) = Fin 0"
  using send_consigne_clamps [of 0 live_state bench_mfc "Fin 100" bench_world "Fin 250"]
    send_consigne_clamps [of 0 live_state bench_mfc "Fin 100" dead_world "Fin (- 3)"]
    send_consigne_clamps [of 0 live_state bench_mfc "Fin 100" bench_world "Fin 40"]
    send_consigne_clamps [of 0 live_state bench_mfc "Fin 100" bench_world PInf]
    send_consigne_clamps [of 0 live_state bench_mfc "Fin 100" bench_world NInf]
  by (simp add: bench_states well_formed_def Let_def fl_le_def)

text \<open>
  Claim C10. \<^verbatim>\<open>send_consigne\<close> checks the channel before it parses the value: on an
  inactive channel with an index in range it raises the device-off error for every
  value, numeric or not, and changes nothing; on an active, bound channel a value that
  \<^verbatim>\<open>float()\<close> rejects makes it return with the state (and so the trace of device calls)
  unchanged.
\<close>

theorem send_consigne_checks_channel_first:
  assumes "0 \<le> idx" "idx < int (max_devices s)"
  shows "(\<not> active (devices s ! nat idx) \<longrightarrow> send_consigne w idx v s = (Inl DeviceOff, s)) \<and>
         (active (devices s ! nat idx) \<and> mfc_objs s ! nat idx = Some m \<and> py_float v = None \<longrightarrow>
            send_consigne w idx v s = (Inr (), s))"
  using assms
  by (simp add: send_consigne_def unfold_steps split: option.splits)

theorem send_consigne_checks_channel_first_witness:
  "\<not> active (devices idle_state ! 0) \<and>
   send_consigne bench_world 0 (Str ''abc'') idle_state = (Inl DeviceOff, idle_state) \<and>
   send_consigne bench_world 0 (Num (Fin 5)) idle_state = (Inl DeviceOff, idle_state) \<and>
   send_consigne bench_world 0 (Num NaN) idle_state = (Inl DeviceOff, idle_state) \<and>
   active (devices live_state ! 0) \<and>
   send_consigne bench_world 0 (Str ''abc'') live_state = (Inr (), live_state)"
  using send_consigne_checks_channel_first [of 0 idle_state bench_world "Str ''abc''" bench_mfc]
    send_consigne_checks_channel_first [of 0 idle_state bench_world "Num (Fin 5)" bench_mfc]
    send_consigne_checks_channel_first [of 0 idle_state bench_world "Num NaN" bench_mfc]
    send_consigne_checks_channel_first [of 0 live_state bench_world "Str ''abc''" bench_mfc]
  by (simp add: bench_states)

subsection \<open>Deactivation\<close>

lemma quiet_stepD:
  assumes "quiet_step i s s'"
  shows "length (devices s') = length (devices s)" "length (mfc_objs s') = length (mfc_objs s)"
    "max_devices s' = max_devices s" "mfc_objs s' = mfc_objs s"
    "active (devices s' ! i) = active (devices s ! i)"
    "serial_port s' = serial_port s" "poll_stop s' = poll_stop s" "poll_thread s' = poll_thread s"
    "j \<noteq> i \<Longrightarrow> devices s' ! j = devices s ! j"
  using assms by (simp_all add: quiet_step_def local_step_def)

lemma same_menu_refl: "same_menu d d"
  by (simp add: same_menu_def)

lemma send_consigne_same_menu:
  "same_menu (devices s ! nat idx) (devices (snd (send_consigne w idx v s)) ! nat idx)"
proof (cases "nat idx < length (devices s)")
  case True
  then show ?thesis
    unfolding send_consigne_def unfold_steps Let_def
    by (simp split: option.splits outcome.splits add: same_menu_def update_device_def)
next
  case False
  then show ?thesis
    unfolding send_consigne_def unfold_steps Let_def
    by (simp split: option.splits outcome.splits
        add: same_menu_def update_device_def list_update_beyond)
qed

lemma shutdown_quiet: "quiet_step (nat idx) s (snd (shutdown w idx m s))"
  by (cases "send_consigne w idx (Num (Fin 0)) s")
     (use send_consigne_quiet [OF quiet_refl, of idx s w "Num (Fin 0)"] in
      \<open>auto simp: shutdown_def and_then_def snd_call quiet_trace split: sum.splits\<close>)

lemma shutdown_same_menu:
  "same_menu (devices s ! nat idx) (devices (snd (shutdown w idx m s)) ! nat idx)"
  by (cases "send_consigne w idx (Num (Fin 0)) s")
     (use send_consigne_same_menu [of s idx w "Num (Fin 0)"] in
      \<open>auto simp: shutdown_def and_then_def snd_call split: sum.splits\<close>)

lemma deactivate_effect:
  assumes "0 \<le> idx" "idx < int (max_devices s)" "well_formed s"
  shows "let s' = snd (deactivate w idx s); d' = devices s' ! nat idx
         in fst (deactivate w idx s) = Inr () \<and>
            \<not> active d' \<and> mfc_objs s' ! nat idx = None \<and>
            mesure d' = unknown \<and> temperature d' = unknown \<and> full_scale d' = unknown \<and>
            totalization_value d' = unknown \<and> valve_command d' = ''N/A'' \<and>
            measurements d' = [] \<and> consigne_points d' = [] \<and>
            same_menu (devices s ! nat idx) d'"
proof -
  define s1 where "s1 = (case mfc_objs s ! nat idx of
                   None \<Rightarrow> s
                 | Some m \<Rightarrow> if active (devices s ! nat idx) then swallow (shutdown w idx m) s else s)"
  have q: "quiet_step (nat idx) s s1"
    by (simp add: s1_def swallow_def quiet_refl shutdown_quiet split: option.splits)
  have m: "same_menu (devices s ! nat idx) (devices s1 ! nat idx)"
    by (simp add: s1_def swallow_def same_menu_refl shutdown_same_menu split: option.splits)
  have len: "nat idx < length (devices s1)" "nat idx < length (mfc_objs s1)"
    using assms quiet_stepD(1,2) [OF q] by (simp_all add: well_formed_def)
  have d: "deactivate w idx s = (Inr (), update_device (nat idx) reset_data (switch_off (nat idx) s1))"
    using assms by (simp add: deactivate_def and_then_get Let_def s1_def)
  show ?thesis
    using len m
    by (simp add: d Let_def update_device_def switch_off_def reset_data_def same_menu_def)
qed

text \<open>
  Claim C1, as amended. For an index in range \<^verbatim>\<open>deactivate\<close> returns normally and
  leaves the channel inactive and unbound, with \<^verbatim>\<open>mesure\<close>, \<^verbatim>\<open>temperature\<close>,
  \<^verbatim>\<open>full_scale\<close> and \<^verbatim>\<open>totalization_value\<close> at \<^verbatim>\<open>(0, "N/A")\<close>, the valve label at
  \<^verbatim>\<open>"N/A"\<close> and both histories empty, whatever the driver answered during the shutdown
  steps. The selected gas, the gas menu, the gas map and the cached full-scale number
  are left as they were.
\<close>

theorem deactivate_resets:
  assumes "0 \<le> idx" "idx < int (max_devices s)" "well_formed s"
  shows "let s' = snd (deactivate w idx s); d' = devices s' ! nat idx
         in fst (deactivate w idx s) = Inr () \<and>
            \<not> active d' \<and> mfc_objs s' ! nat idx = None \<and>
            mesure d' = unknown \<and> temperature d' = unknown \<and> full_scale d' = unknown \<and>
            totalization_value d' = unknown \<and> valve_command d' = ''N/A'' \<and>
            measurements d' = [] \<and> consigne_points d' = [] \<and>
            same_menu (devices s ! nat idx) d'"
  using assms by (rule deactivate_effect)

theorem deactivate_resets_witness:
  "active (devices live_state ! 0) \<and>
   \<not> active (devices (snd (deactivate dead_world 0 live_state)) ! 0) \<and>
   mfc_objs (snd (deactivate dead_world 0 live_state)) ! 0 = None \<and>
   full_scale (devices (snd (deactivate dead_world 0 live_state)) ! 0) = (Num (Fin 0), ''N/A'') \<and>
   full_scale_value (devices (snd (deactivate dead_world 0 live_state)) ! 0) = Fin 100 \<and>
   selected_gas (devices (snd (deactivate dead_world 0 live_state)) ! 0) = Some 1"
  using deactivate_resets [of 0 live_state dead_world]
  by (simp add: bench_states well_formed_def same_menu_def Let_def unknown_def)

subsection \<open>Valve mode\<close>

lemma vanne_cmd_cases:
  "vanne_cmd a =
     (if a = ''Ouverture'' then Some 1 else if a = ''Fermeture'' then Some 2
      else if a = regulation then Some 0 else None)"
  by (simp add: vanne_cmd_def regulation_def)

text \<open>
  Claim C9, as amended. The action strings that \<^verbatim>\<open>set_vanne\<close> recognises are the French
  ones: \<^verbatim>\<open>"Ouverture"\<close> gives the valve command 1, \<^verbatim>\<open>"Fermeture"\<close> 2 and the French word
  for regulation 0. On an active, bound channel every other string returns with the
  state unchanged (no device call). A recognised string issues the valve write; when
  that write raises, the error propagates with nothing read back; when it returns, the
  valve label is read back at once and stored, \<^verbatim>\<open>"N/A"\<close> standing for an answer that is
  \<^verbatim>\<open>None\<close> or empty, and a failing read-back propagates as well.
\<close>

theorem set_vanne_effect:
  assumes "0 \<le> idx" "idx < int (max_devices s)" "active (devices s ! nat idx)"
    "mfc_objs s ! nat idx = Some m"
  shows "vanne_cmd ''Ouverture'' = Some 1 \<and> vanne_cmd ''Fermeture'' = Some 2 \<and>
         vanne_cmd regulation = Some 0 \<and>
         (a \<notin> {''Ouverture'', ''Fermeture'', regulation} \<longrightarrow> set_vanne w idx a s = (Inr (), s)) \<and>
         (\<forall>cmd. vanne_cmd a = Some cmd \<longrightarrow>
            (command w (trace s) (Mfc (tag_name m) (SetVanne cmd)) = Raises \<longrightarrow>
               set_vanne w idx a s =
                 (Inl DriverError, s\<lparr>trace := trace s @ [Mfc (tag_name m) (SetVanne cmd)]\<rparr>)) \<and>
            (command w (trace s) (Mfc (tag_name m) (SetVanne cmd)) = Returns () \<longrightarrow>
               (valve_label w (trace s @ [Mfc (tag_name m) (SetVanne cmd)]) (Mfc (tag_name m) RedVanne)
                  = Raises \<longrightarrow>
                set_vanne w idx a s =
                  (Inl DriverError, s\<lparr>trace := trace s @ [Mfc (tag_name m) (SetVanne cmd),
                                                         Mfc (tag_name m) RedVanne]\<rparr>)) \<and>
               (\<forall>l. valve_label w (trace s @ [Mfc (tag_name m) (SetVanne cmd)])
                      (Mfc (tag_name m) RedVanne) = Returns l \<longrightarrow>
                set_vanne w idx a s =
                  (Inr (), update_device (nat idx)
                     (\<lambda>d. d\<lparr>valve_command := (case l of None \<Rightarrow> ''N/A''
                                                 | Some t \<Rightarrow> if t = [] then ''N/A'' else t)\<rparr>)
                     (s\<lparr>trace := trace s @ [Mfc (tag_name m) (SetVanne cmd),
                                             Mfc (tag_name m) RedVanne]\<rparr>)))))"
  using assms
  by (simp add: set_vanne_def unfold_steps vanne_cmd_cases or_na_def update_device_def regulation_def)

theorem set_vanne_effect_witness:
  "active (devices live_state ! 0) \<and>
   set_vanne bench_world 0 ''Ouverture'' live_state =
     (Inr (), update_device 0 (\<lambda>d. d\<lparr>valve_command := ''Regulating''\<rparr>)
                (live_state\<lparr>trace := [Mfc (tag_name bench_mfc) (SetVanne 1),
                                        Mfc (tag_name bench_mfc) RedVanne]\<rparr>)) \<and>
   set_vanne bench_world 0 ''Regulating'' live_state = (Inr (), live_state)"
  using set_vanne_effect [of 0 live_state bench_mfc "''Ouverture''" bench_world]
    set_vanne_effect [of 0 live_state bench_mfc "''Regulating''" bench_world]
  by (simp add: bench_states bench_world_def regulation_def vanne_cmd_cases)

subsection \<open>Deferred setpoint\<close>

lemma send_consigne_deferred:
  assumes "0 \<le> idx" "idx < int (max_devices s)" "active (devices s ! nat idx)"
    "mfc_objs s ! nat idx = Some m" "full_scale_value (devices s ! nat idx) = Fin 0"
  shows "send_consigne w idx (Num v) s =
           (Inr (), update_device (nat idx)
                      (\<lambda>d. d\<lparr>consigne := (if fl_less v (Fin 0) then Fin 0 else v)\<rparr>) s)"
  using assms by (simp add: send_consigne_def unfold_steps Let_def fl_truthy_def)

lemma poll_one_reissues:
  assumes "0 \<le> idx" "idx < int (max_devices s)" "well_formed s" "active (devices s ! nat idx)"
    "mfc_objs s ! nat idx = Some m" "selected_gas (devices s ! nat idx) = Some g"
    "consigne (devices s ! nat idx) = c" "c \<noteq> Fin 0" "0 < F"
    "reading w (trace s) (Mfc (tag_name m) (ReadFlowRate g)) = Returns fr"
    "reading w (trace s @ [Mfc (tag_name m) (ReadFlowRate g)]) (Mfc (tag_name m) ReadDynamic)
       = Returns tmp"
    "reading w (trace s @ [Mfc (tag_name m) (ReadFlowRate g), Mfc (tag_name m) ReadDynamic])
       (Mfc (tag_name m) (ReadFullScaleFlowRate g)) = Returns (Some (Num (Fin F), u))"
    "reading w (trace s @ [Mfc (tag_name m) (ReadFlowRate g), Mfc (tag_name m) ReadDynamic,
                           Mfc (tag_name m) (ReadFullScaleFlowRate g)])
       (Mfc (tag_name m) ReadTotalizerValue) = Returns tot"
    "valve_label w (trace s @ [Mfc (tag_name m) (ReadFlowRate g), Mfc (tag_name m) ReadDynamic,
                           Mfc (tag_name m) (ReadFullScaleFlowRate g),
                           Mfc (tag_name m) ReadTotalizerValue])
       (Mfc (tag_name m) RedVanne) = Returns lab"
  shows "fst (poll_one w idx s) = Inr () \<and>
         trace (snd (poll_one w idx s)) =
           trace s @ [Mfc (tag_name m) (ReadFlowRate g), Mfc (tag_name m) ReadDynamic,
                      Mfc (tag_name m) (ReadFullScaleFlowRate g),
                      Mfc (tag_name m) ReadTotalizerValue, Mfc (tag_name m) RedVanne,
                      Mfc (tag_name m)
                        (WriteSetpoint
                           (fl_mul (fl_div (if fl_less c (Fin 0) then Fin 0
                                            else if fl_less (Fin F) c then Fin F else c) (Fin F))
                              (Fin 100)) 57)]"
  using assms
  by (simp add: poll_one_def poll_store_def send_consigne_def unfold_steps Let_def swallow_def
      or_unknown_def or_zero_def update_device_def well_formed_def fl_truthy_def
      split: outcome.splits)

text \<open>
  Claim C4. On an active, bound channel: (a) while the full scale is unknown
  (\<^verbatim>\<open>full_scale_value = 0\<close>) \<^verbatim>\<open>send_consigne\<close> with a numeric value stores the value
  (floored at 0) and returns without any device call, the trace being unchanged;
  (b) when a poll of the channel gets its five answers and the full scale read is
  \<open>F > 0\<close> while the stored setpoint \<open>c\<close> is not zero, \<^verbatim>\<open>_poll_one\<close> ends its exchange with
  the setpoint write of \<open>c\<close> (clamped to \<open>[0, F]\<close>) as a percentage of \<open>F\<close>, in unit 57, and
  returns normally whatever that write answers: no hypothesis is made on it. For a
  finite \<open>c\<close> the percentage written is \<open>clamp(c) / F * 100\<close>.
\<close>

theorem deferred_setpoint_reissued:
  assumes "0 \<le> idx" "idx < int (max_devices s)" "well_formed s" "active (devices s ! nat idx)"
    "mfc_objs s ! nat idx = Some m"
  shows "(full_scale_value (devices s ! nat idx) = Fin 0 \<longrightarrow>
            fst (send_consigne w idx (Num v) s) = Inr () \<and>
            trace (snd (send_consigne w idx (Num v) s)) = trace s \<and>
            consigne (devices (snd (send_consigne w idx (Num v) s)) ! nat idx) =
              (if fl_less v (Fin 0) then Fin 0 else v) \<and>
            (\<forall>r. v = Fin r \<longrightarrow>
               consigne (devices (snd (send_consigne w idx (Num v) s)) ! nat idx) =
                 Fin (if r < 0 then 0 else r))) \<and>
         (selected_gas (devices s ! nat idx) = Some g \<and>
          consigne (devices s ! nat idx) = c \<and> c \<noteq> Fin 0 \<and> 0 < F \<and>
          reading w (trace s) (Mfc (tag_name m) (ReadFlowRate g)) = Returns fr \<and>
          reading w (trace s @ [Mfc (tag_name m) (ReadFlowRate g)]) (Mfc (tag_name m) ReadDynamic)
            = Returns tmp \<and>
          reading w (trace s @ [Mfc (tag_name m) (ReadFlowRate g), Mfc (tag_name m) ReadDynamic])
            (Mfc (tag_name m) (ReadFullScaleFlowRate g)) = Returns (Some (Num (Fin F), u)) \<and>
          reading w (trace s @ [Mfc (tag_name m) (ReadFlowRate g), Mfc (tag_name m) ReadDynamic,
                                Mfc (tag_name m) (ReadFullScaleFlowRate g)])
            (Mfc (tag_name m) ReadTotalizerValue) = Returns tot \<and>
          valve_label w (trace s @ [Mfc (tag_name m) (ReadFlowRate g), Mfc (tag_name m) ReadDynamic,
                                    Mfc (tag_name m) (ReadFullScaleFlowRate g),
                                    Mfc (tag_name m) ReadTotalizerValue])
            (Mfc (tag_name m) RedVanne) = Returns lab \<longrightarrow>
          fst (poll_one w idx s) = Inr () \<and>
          trace (snd (poll_one w idx s)) =
            trace s @ [Mfc (tag_name m) (ReadFlowRate g), Mfc (tag_name m) ReadDynamic,
                       Mfc (tag_name m) (ReadFullScaleFlowRate g),
                       Mfc (tag_name m) ReadTotalizerValue, Mfc (tag_name m) RedVanne,
                       Mfc (tag_name m)
                         (WriteSetpoint
                            (fl_mul (fl_div (if fl_less c (Fin 0) then Fin 0
                                             else if fl_less (Fin F) c then Fin F else c) (Fin F))
                               (Fin 100)) 57)] \<and>
          (\<forall>r. c = Fin r \<longrightarrow>
             fl_mul (fl_div (if fl_less c (Fin 0) then Fin 0
                             else if fl_less (Fin F) c then Fin F else c) (Fin F)) (Fin 100) =
               Fin ((if r < 0 then 0 else if r > F then F else r) / F * 100)))"
  (is "?deferred \<and> ?reissued")
proof
  have len: "nat idx < length (devices s)"
    using assms by (simp add: well_formed_def)
  show ?deferred
  proof
    assume z: "full_scale_value (devices s ! nat idx) = Fin 0"
    note d = send_consigne_deferred [OF assms(1,2,4,5) z]
    show "fst (send_consigne w idx (Num v) s) = Inr () \<and>
            trace (snd (send_consigne w idx (Num v) s)) = trace s \<and>
            consigne (devices (snd (send_consigne w idx (Num v) s)) ! nat idx) =
              (if fl_less v (Fin 0) then Fin 0 else v) \<and>
            (\<forall>r. v = Fin r \<longrightarrow>
               consigne (devices (snd (send_consigne w idx (Num v) s)) ! nat idx) =
                 Fin (if r < 0 then 0 else r))"
      using len by (simp add: d update_device_def)
  qed
  show ?reissued
    using poll_one_reissues [OF assms, of g c F w fr tmp u tot lab] by auto
qed

theorem deferred_setpoint_reissued_witness:
  "full_scale_value (devices fresh_state ! 0) = Fin 0 \<and>
   send_consigne refusing_world 0 (Num (Fin 50)) fresh_state =
     (Inr (), update_device 0 (\<lambda>d. d\<lparr>consigne := Fin 50\<rparr>) fresh_state) \<and>
   fst (poll_one refusing_world 0 (update_device 0 (\<lambda>d. d\<lparr>consigne := Fin 50\<rparr>) fresh_state))
     = Inr () \<and>
   trace (snd (poll_one refusing_world 0
                 (update_device 0 (\<lambda>d. d\<lparr>consigne := Fin 50\<rparr>) fresh_state))) =
     [Mfc (tag_name bench_mfc) (ReadFlowRate 1), Mfc (tag_name bench_mfc) ReadDynamic,
      Mfc (tag_name bench_mfc) (ReadFullScaleFlowRate 1),
      Mfc (tag_name bench_mfc) ReadTotalizerValue, Mfc (tag_name bench_mfc) RedVanne,
      Mfc (tag_name bench_mfc) (WriteSetpoint (Fin 50) 57)] \<and>
   command refusing_world [] (Mfc (tag_name bench_mfc) (WriteSetpoint (Fin 50) 57)) = Raises"
  using deferred_setpoint_reissued [where idx = 0 and s = fresh_state and m = bench_mfc
      and w = refusing_world and v = "Fin 50"]
    deferred_setpoint_reissued [where idx = 0
      and s = "update_device 0 (\<lambda>d. d\<lparr>consigne := Fin 50\<rparr>) fresh_state"
      and m = bench_mfc and w = refusing_world and g = 1 and c = "Fin 50" and F = 100
      and fr = "Some (Num (Fin 12.5), ''ln/min'')" and tmp = None and u = "''ln/min''"
      and tot = None and lab = "Some ''Regulating''"]
    send_consigne_deferred [where idx = 0 and s = fresh_state and m = bench_mfc
      and w = refusing_world and v = "Fin 50"]
  by (simp add: bench_states well_formed_def refusing_world_def bench_world_def bench_reading_def)

subsection \<open>Polling failures\<close>

lemma poll_visits_keep_stop: "poll_stop (fold (poll_visit w) js s) = poll_stop s"
proof (induction js arbitrary: s)
  case Nil
  show ?case by simp
next
  case (Cons j js)
  have "poll_stop (poll_visit w j s) = poll_stop s"
    by (rule quiet_stepD(7) [OF poll_visit_quiet [OF quiet_refl]])
  with Cons.IH [of "poll_visit w j s"] show ?case by simp
qed

lemma poll_cycle_keeps_stop: "poll_stop (poll_cycle w s) = poll_stop s"
  by (simp add: poll_cycle_def poll_visits_keep_stop)

lemma poll_loop_runs: "\<not> poll_stop s \<Longrightarrow> poll_loop w n s = None"
  by (induction n arbitrary: s) (simp_all add: poll_cycle_keeps_stop)

lemma poll_loop_stops: "poll_stop s \<Longrightarrow> poll_loop w n s = Some s"
  by (cases n) simp_all

text \<open>
  Claim C5. When \<^verbatim>\<open>_poll_one\<close> raises for an active channel \<open>i\<close>, the visit of that
  channel in \<^verbatim>\<open>_poll_loop\<close> ends with \<^verbatim>\<open>mesure\<close>, \<^verbatim>\<open>temperature\<close>, \<^verbatim>\<open>full_scale\<close> and
  \<^verbatim>\<open>totalization_value\<close> at \<^verbatim>\<open>(0, "N/A")\<close>, the valve label at \<^verbatim>\<open>"N/A"\<close> and both
  histories empty, while the channel stays active and bound; no other channel is
  touched, and the loop does not return as long as the stop event is not set, whatever
  the driver answers.
\<close>

theorem poll_failure_resets_channel:
  assumes "i < max_devices s" "well_formed s" "active (devices s ! i)"
    "fst (poll_one w (int i) s) = Inl e"
  shows "let s' = poll_visit w i s; d' = devices s' ! i
         in mesure d' = unknown \<and> temperature d' = unknown \<and> full_scale d' = unknown \<and>
            totalization_value d' = unknown \<and> valve_command d' = ''N/A'' \<and>
            measurements d' = [] \<and> consigne_points d' = [] \<and> active d' \<and>
            mfc_objs s' = mfc_objs s \<and>
            (\<forall>j. j \<noteq> i \<longrightarrow> devices s' ! j = devices s ! j) \<and>
            (\<forall>n. \<not> poll_stop s \<longrightarrow> poll_loop w n s = None)"
proof -
  obtain s1 where p: "poll_one w (int i) s = (Inl e, s1)"
    using assms(4) by (cases "poll_one w (int i) s") simp
  have q: "quiet_step i s s1"
    using poll_one_quiet [OF quiet_refl, of "int i" s w] by (simp add: p)
  have len: "i < length (devices s1)"
    using assms quiet_stepD(1) [OF q] by (simp add: well_formed_def)
  have v: "poll_visit w i s = update_device i reset_data s1"
    using assms(3) by (simp add: poll_visit_def p)
  show ?thesis
    using len quiet_stepD(4,5,9) [OF q] assms(3)
    by (simp add: v Let_def update_device_def reset_data_def poll_loop_runs)
qed

theorem poll_failure_resets_channel_witness:
  "active (devices live_state ! 0) \<and> fst (poll_one dead_world 0 live_state) = Inl DriverError \<and>
   active (devices (poll_visit dead_world 0 live_state) ! 0) \<and>
   full_scale (devices (poll_visit dead_world 0 live_state) ! 0) = (Num (Fin 0), ''N/A'') \<and>
   full_scale_value (devices (poll_visit dead_world 0 live_state) ! 0) = Fin 100 \<and>
   poll_loop dead_world 3 live_state = None"
  using poll_failure_resets_channel [where i = 0 and s = live_state and w = dead_world
      and e = DriverError]
  by (simp add: bench_states well_formed_def dead_world_def bench_world_def poll_one_def
      and_then_def get_def need_mfc_def call_def Let_def unknown_def poll_visit_def reset_data_def)

subsection \<open>Disconnecting\<close>

lemma switch_off_idem: "switch_off i (switch_off i s) = switch_off i s"
  by (cases "i < length (devices s)")
     (simp_all add: switch_off_def update_device_def list_update_beyond)

lemma switch_off_commute: "switch_off i (switch_off j s) = switch_off j (switch_off i s)"
  by (cases "i = j") (simp_all add: switch_off_def update_device_def list_update_swap)

lemma switch_off_fold_commute: "switch_off i (fold switch_off js s) = fold switch_off js (switch_off i s)"
  by (induction js arbitrary: s) (simp_all add: switch_off_commute)

lemma fold_switch_off_idem: "fold switch_off js (fold switch_off js s) = fold switch_off js s"
proof (induction js arbitrary: s)
  case Nil
  show ?case by simp
next
  case (Cons j js)
  have "fold switch_off (j # js) (fold switch_off (j # js) s) =
        fold switch_off js (switch_off j (fold switch_off js (switch_off j s)))"
    by simp
  also have "\<dots> = fold switch_off js (fold switch_off js (switch_off j (switch_off j s)))"
    by (simp add: switch_off_fold_commute)
  also have "\<dots> = fold switch_off js (switch_off j s)"
    by (simp add: switch_off_idem Cons.IH)
  finally show ?case by simp
qed

lemma fold_switch_off_session:
  "serial_port (fold switch_off js s) = serial_port s"
  "max_devices (fold switch_off js s) = max_devices s"
  "poll_stop (fold switch_off js s) = poll_stop s"
  "poll_thread (fold switch_off js s) = poll_thread s"
  "trace (fold switch_off js s) = trace s"
  "clock_reads (fold switch_off js s) = clock_reads s"
  "length (devices (fold switch_off js s)) = length (devices s)"
  "length (mfc_objs (fold switch_off js s)) = length (mfc_objs s)"
  by (induction js arbitrary: s) (simp_all add: switch_off_def update_device_def)

lemma switch_off_at:
  assumes "i < length (devices s)" "i < length (mfc_objs s)"
  shows "\<not> active (devices (switch_off i s) ! i) \<and> mfc_objs (switch_off i s) ! i = None"
  using assms by (simp add: switch_off_def update_device_def)

lemma fold_switch_off_off:
  assumes "i \<in> set js" "i < length (devices s)" "i < length (mfc_objs s)"
  shows "\<not> active (devices (fold switch_off js s) ! i) \<and> mfc_objs (fold switch_off js s) ! i = None"
  using assms
proof (induction js arbitrary: s)
  case Nil
  then show ?case by simp
next
  case (Cons j js)
  show ?case
  proof (cases "i = j")
    case True
    have "fold switch_off (j # js) s = switch_off i (fold switch_off js s)"
      by (simp add: True switch_off_fold_commute)
    moreover have "i < length (devices (fold switch_off js s))"
      "i < length (mfc_objs (fold switch_off js s))"
      using Cons.prems by (simp_all add: fold_switch_off_session)
    ultimately show ?thesis
      using switch_off_at [of i "fold switch_off js s"] by simp
  next
    case False
    with Cons.prems have "i \<in> set js" by simp
    moreover have "i < length (devices (switch_off j s))" "i < length (mfc_objs (switch_off j s))"
      using Cons.prems by (simp_all add: switch_off_def update_device_def)
    ultimately show ?thesis
      using Cons.IH [of "switch_off j s"] by simp
  qed
qed

lemma same_fields:
  "serial_port s = None \<Longrightarrow> s\<lparr>serial_port := None\<rparr> = s"
  "poll_stop s \<Longrightarrow> \<not> poll_thread s \<Longrightarrow> stop_polling s = s"
  by (simp_all add: stop_polling_def)

lemma disconnect_fields:
  "serial_port (disconnect w s) = None" "poll_stop (disconnect w s)" "\<not> poll_thread (disconnect w s)"
  "max_devices (disconnect w s) = max_devices s"
  "length (devices (disconnect w s)) = length (devices s)"
  "length (mfc_objs (disconnect w s)) = length (mfc_objs s)"
  by (simp_all add: disconnect_def Let_def fold_switch_off_session stop_polling_def swallow_def
      snd_call)

lemma disconnect_unfold:
  "disconnect w s =
     fold switch_off [0..<max_devices s]
       ((if is_connected s then (stop_polling s)\<lparr>trace := trace s @ [SerialClose]\<rparr> else stop_polling s)
          \<lparr>serial_port := None\<rparr>)"
  by (simp add: disconnect_def Let_def swallow_def snd_call stop_polling_def is_connected_def)

text \<open>
  Claim C7. \<^verbatim>\<open>disconnect\<close> with no open session adds nothing to the trace (no protocol
  exchange, no close of the transport); after any \<^verbatim>\<open>disconnect\<close> every channel is
  inactive and unbound and no session is open; and a second \<^verbatim>\<open>disconnect\<close> in a row
  leaves the state exactly as the first one left it.
\<close>

theorem disconnect_idempotent:
  "(\<not> is_connected s \<longrightarrow> trace (disconnect w s) = trace s) \<and>
   (well_formed s \<longrightarrow>
      (\<forall>i < max_devices s. \<not> active (devices (disconnect w s) ! i) \<and>
                              mfc_objs (disconnect w s) ! i = None)) \<and>
   \<not> is_connected (disconnect w s) \<and>
   disconnect w (disconnect w s) = disconnect w s"
proof (intro conjI impI allI)
  assume "\<not> is_connected s"
  then show "trace (disconnect w s) = trace s"
    by (simp add: disconnect_unfold fold_switch_off_session stop_polling_def)
next
  fix i
  assume "well_formed s" "i < max_devices s"
  then show "\<not> active (devices (disconnect w s) ! i)" "mfc_objs (disconnect w s) ! i = None"
    using fold_switch_off_off [of i "[0..<max_devices s]"]
    by (simp_all add: disconnect_unfold well_formed_def stop_polling_def)
next
  show n: "\<not> is_connected (disconnect w s)"
    by (simp add: is_connected_def disconnect_fields)
  have "disconnect w (disconnect w s) =
          fold switch_off [0..<max_devices s] (disconnect w s)"
    using n by (simp add: disconnect_unfold [of w "disconnect w s"] disconnect_fields same_fields)
  also have "\<dots> = disconnect w s"
    by (simp add: disconnect_unfold [of w s] fold_switch_off_idem)
  finally show "disconnect w (disconnect w s) = disconnect w s" .
qed


theorem disconnect_idempotent_witness:
  "well_formed live_state \<and> is_connected live_state \<and>
   trace (disconnect bench_world live_state) = [SerialClose] \<and>
   \<not> is_connected (disconnect bench_world live_state) \<and>
   trace (disconnect bench_world (disconnect bench_world live_state)) = [SerialClose] \<and>
   \<not> active (devices (disconnect bench_world live_state) ! 0) \<and>
   mfc_objs (disconnect bench_world live_state) ! 0 = None \<and>
   disconnect bench_world (disconnect bench_world live_state) = disconnect bench_world live_state"
  using disconnect_idempotent [of live_state bench_world]
    disconnect_idempotent [of "disconnect bench_world live_state" bench_world]
  by (simp add: bench_states well_formed_def is_connected_def disconnect_unfold stop_polling_def
      switch_off_def)

subsection \<open>What the control surface returns\<close>

lemma returning_snapshot_cases:
  "returning_snapshot m s =
     (case m s of (Inl e, s1) \<Rightarrow> (Inl e, s1) | (Inr _, s1) \<Rightarrow> (Inr (Snapshot (snapshot s1)), s1))"
  by (simp add: returning_snapshot_def and_then_def split: prod.splits sum.splits)

lemma returning_snapshot_value:
  "returning_snapshot m s = (Inr v, s') \<Longrightarrow> v = Snapshot (snapshot s')"
  by (auto simp: returning_snapshot_cases split: prod.splits sum.splits)

lemma api_set_tag_value:
  "api_set_tag w idx t s = (Inr v, s') \<Longrightarrow> v = Status True"
  by (auto simp: api_set_tag_def and_then_def Let_def split: prod.splits sum.splits)

lemma returning_snapshot_raises:
  "fst (m s) = Inl e \<Longrightarrow> fst (returning_snapshot m s) = Inl e"
  by (cases "m s") (simp add: returning_snapshot_cases)

lemma returning_snapshot_both:
  "(fst (m s) = Inl e \<longrightarrow> returning_snapshot m s = (Inl e, snd (m s))) \<and>
   (fst (m s) = Inr x \<longrightarrow>
      returning_snapshot m s = (Inr (Snapshot (snapshot (snd (m s)))), snd (m s)))"
  by (cases "m s") (simp add: returning_snapshot_cases split: sum.splits)

lemma length_default_tags: "length default_tags = MAX_MASSIQUES"
  by (simp add: default_tags_def)

lemma api_set_tag_completes:
  assumes "command w (trace s) EnsureDir = Returns ()"
    "tags_json w (trace s @ [EnsureDir]) = Returns js"
    "command w (trace s @ [EnsureDir]) EnsureDir = Returns ()"
    "0 \<le> idx" "idx < int MAX_MASSIQUES" "idx < int (max_devices s)"
  shows "fst (api_set_tag w idx t s) = Inr (Status True)"
  using assms
  by (simp add: api_set_tag_def load_tags_def save_tags_def ensure_dir_def set_tag_def
      and_then_def call_def get_def swallow_def py_setitem_def length_default_tags Let_def
      split: option.splits)

text \<open>
  Claim C8, as amended. Behind every mutating call of the control surface except
  \<^verbatim>\<open>set_tag\<close> stands one supervisor operation: when that operation completes, the call
  returns the fresh snapshot of the state the operation leaves (\<^verbatim>\<open>disconnect\<close> always
  completes); when it raises, the call raises the same error to its caller, in the state
  the operation leaves, and returns no snapshot. \<^verbatim>\<open>set_tag\<close> returns the bare status
  \<^verbatim>\<open>True\<close>, and does so whenever the settings directory can be created, the settings
  file holds a dictionary or nothing readable, and the index is one of the channels.
  In all, a call that returns a value returns the snapshot of the state it leaves, or
  \<^verbatim>\<open>True\<close> for \<^verbatim>\<open>set_tag\<close>.
\<close>

theorem api_call_results:
  "(api_call w r s = (Inr v, s') \<longrightarrow>
      v = (case r of SetTag _ _ \<Rightarrow> Status True | _ \<Rightarrow> Snapshot (snapshot s'))) \<and>
   api_call w Disconnect s = (Inr (Snapshot (snapshot (disconnect w s))), disconnect w s) \<and>
   (command w (trace s) EnsureDir = Returns () \<and>
    tags_json w (trace s @ [EnsureDir]) = Returns js \<and>
    command w (trace s @ [EnsureDir]) EnsureDir = Returns () \<and>
    0 \<le> idx \<and> idx < int MAX_MASSIQUES \<and> idx < int (max_devices s) \<longrightarrow>
      fst (api_call w (SetTag idx t) s) = Inr (Status True)) \<and>
   (fst (connect w port s) = Inr () \<longrightarrow>
      api_call w (Connect port) s =
        (Inr (Snapshot (snapshot (snd (connect w port s)))), snd (connect w port s))) \<and>
   (fst (connect w port s) = Inl e \<longrightarrow>
      api_call w (Connect port) s = (Inl e, snd (connect w port s))) \<and>
   (fst (activate w idx s) = Inr () \<longrightarrow>
      api_call w (ToggleDevice idx True) s =
        (Inr (Snapshot (snapshot (snd (activate w idx s)))), snd (activate w idx s))) \<and>
   (fst (activate w idx s) = Inl e \<longrightarrow>
      api_call w (ToggleDevice idx True) s = (Inl e, snd (activate w idx s))) \<and>
   (fst (deactivate w idx s) = Inr () \<longrightarrow>
      api_call w (ToggleDevice idx False) s =
        (Inr (Snapshot (snapshot (snd (deactivate w idx s)))), snd (deactivate w idx s))) \<and>
   (fst (deactivate w idx s) = Inl e \<longrightarrow>
      api_call w (ToggleDevice idx False) s = (Inl e, snd (deactivate w idx s))) \<and>
   (fst (send_consigne w idx x s) = Inr () \<longrightarrow>
      api_call w (SetConsigne idx x) s =
        (Inr (Snapshot (snapshot (snd (send_consigne w idx x s)))), snd (send_consigne w idx x s))) \<and>
   (fst (send_consigne w idx x s) = Inl e \<longrightarrow>
      api_call w (SetConsigne idx x) s = (Inl e, snd (send_consigne w idx x s))) \<and>
   (fst (set_vanne w idx a s) = Inr () \<longrightarrow>
      api_call w (SetVanneMode idx a) s =
        (Inr (Snapshot (snapshot (snd (set_vanne w idx a s)))), snd (set_vanne w idx a s))) \<and>
   (fst (set_vanne w idx a s) = Inl e \<longrightarrow>
      api_call w (SetVanneMode idx a) s = (Inl e, snd (set_vanne w idx a s))) \<and>
   (fst (reset_totalization w idx s) = Inr () \<longrightarrow>
      api_call w (ResetTotal idx) s =
        (Inr (Snapshot (snapshot (snd (reset_totalization w idx s)))),
         snd (reset_totalization w idx s))) \<and>
   (fst (reset_totalization w idx s) = Inl e \<longrightarrow>
      api_call w (ResetTotal idx) s = (Inl e, snd (reset_totalization w idx s))) \<and>
   (fst (apply_ramp_settings w idx ra rt s) = Inr () \<longrightarrow>
      api_call w (SetRamp idx ra rt) s =
        (Inr (Snapshot (snapshot (snd (apply_ramp_settings w idx ra rt s)))),
         snd (apply_ramp_settings w idx ra rt s))) \<and>
   (fst (apply_ramp_settings w idx ra rt s) = Inl e \<longrightarrow>
      api_call w (SetRamp idx ra rt) s = (Inl e, snd (apply_ramp_settings w idx ra rt s))) \<and>
   (fst (select_gas w idx a s) = Inr () \<longrightarrow>
      api_call w (SelectGas idx a) s =
        (Inr (Snapshot (snapshot (snd (select_gas w idx a s)))), snd (select_gas w idx a s))) \<and>
   (fst (select_gas w idx a s) = Inl e \<longrightarrow>
      api_call w (SelectGas idx a) s = (Inl e, snd (select_gas w idx a s)))"
proof -
  have "v = (case r of SetTag _ _ \<Rightarrow> Status True | _ \<Rightarrow> Snapshot (snapshot s'))"
    if "api_call w r s = (Inr v, s')"
    using that
    by (cases r)
       (auto simp: api_connect_def api_disconnect_def api_toggle_device_def api_set_consigne_def
          api_set_vanne_def api_reset_total_def api_set_ramp_def api_select_gas_def
          dest: returning_snapshot_value api_set_tag_value)
  moreover have "api_call w Disconnect s =
      (Inr (Snapshot (snapshot (disconnect w s))), disconnect w s)"
    by (simp add: api_disconnect_def returning_snapshot_cases)
  ultimately show ?thesis
    by (simp add: api_connect_def api_toggle_device_def api_set_consigne_def
          api_set_vanne_def api_reset_total_def api_set_ramp_def api_select_gas_def
          returning_snapshot_both api_set_tag_completes)
qed

theorem api_call_results_witness:
  "fst (set_vanne bench_world 0 ''Fermeture'' live_state) = Inr () \<and>
   api_call bench_world (SetVanneMode 0 ''Fermeture'') live_state =
     (Inr (Snapshot (snapshot (snd (set_vanne bench_world 0 ''Fermeture'' live_state)))),
      snd (set_vanne bench_world 0 ''Fermeture'' live_state)) \<and>
   fst (send_consigne bench_world 0 (Num (Fin 5)) idle_state) = Inl DeviceOff \<and>
   api_call bench_world (SetConsigne 0 (Num (Fin 5))) idle_state = (Inl DeviceOff, idle_state) \<and>
   fst (api_call bench_world (SetTag 0 ''PUMP'') idle_state) = Inr (Status True) \<and>
   api_call bench_world Disconnect idle_state =
     (Inr (Snapshot (snapshot (disconnect bench_world idle_state))),
      disconnect bench_world idle_state)"
  using api_call_results [where w = bench_world and s = live_state and idx = 0
      and a = "''Fermeture''" and r = Disconnect and e = DeviceOff
      and v = "Snapshot (snapshot (disconnect bench_world live_state))"
      and s' = "disconnect bench_world live_state"]
    api_call_results [where w = bench_world and s = idle_state and idx = 0 and x = "Num (Fin 5)"
      and e = DeviceOff and js = None and t = "''PUMP''" and r = Disconnect
      and v = "Snapshot (snapshot (disconnect bench_world idle_state))"
      and s' = "disconnect bench_world idle_state"]
  by (simp add: set_vanne_def send_consigne_def need_mfc_def get_def and_then_def call_def
      vanne_cmd_cases regulation_def bench_world_def bench_states MAX_MASSIQUES_def)

subsection \<open>Steps local to a channel and the invariant\<close>

lemma local_refl: "local_step i s s"
  by (simp add: local_step_def)

lemma local_trace: "local_step i s0 s \<Longrightarrow> local_step i s0 (s\<lparr>trace := t\<rparr>)"
  by (simp add: local_step_def)

lemma local_mfc: "local_step i s0 s \<Longrightarrow> local_step i s0 (s\<lparr>mfc_objs := (mfc_objs s)[i := m]\<rparr>)"
  by (simp add: local_step_def)

lemma local_update:
  assumes "local_step i s0 s" "\<forall>d. bounded d \<longrightarrow> bounded (f d)"
  shows "local_step i s0 (update_device i f s)"
proof (cases "i < length (devices s)")
  case True
  with assms show ?thesis
    by (simp add: local_step_def update_device_def)
next
  case False
  with assms(1) show ?thesis
    by (simp add: local_step_def update_device_def list_update_beyond)
qed

lemma local_quiet: "local_step i s0 s \<Longrightarrow> quiet_step i s s' \<Longrightarrow> local_step i s0 s'"
  by (simp add: quiet_step_def local_step_def)

lemma quiet_local: "quiet_step i s s' \<Longrightarrow> local_step i s s'"
  by (simp add: quiet_step_def)

lemma switch_off_local: "local_step i s0 s \<Longrightarrow> local_step i s0 (switch_off i s)"
  by (simp add: switch_off_def local_update local_mfc bounded_def)

lemma probe_gas_quiet:
  assumes "quiet_step i s0 s"
  shows "quiet_step i s0 (snd (probe_gas w i m g s))"
proof -
  have "quiet_step i s (snd (probe_gas w i m g s))"
    unfolding probe_gas_def unfold_steps Let_def
    by (simp split: option.splits outcome.splits add: quiet_rules)
  with assms show ?thesis by (rule quiet_trans)
qed

lemma discover_gases_quiet:
  assumes "quiet_step i s0 s"
  shows "quiet_step i s0 (discover_gases w i m s)"
  using assms by (simp add: discover_gases_def swallow_def probe_gas_quiet)

lemma select_first_gas_quiet:
  assumes "quiet_step i s0 s"
  shows "quiet_step i s0 (snd (select_first_gas w i m s))"
proof -
  have "quiet_step i s (snd (select_first_gas w i m s))"
    unfolding select_first_gas_def unfold_steps Let_def
    by (simp split: option.splits outcome.splits list.splits add: quiet_rules)
  with assms show ?thesis by (rule quiet_trans)
qed

lemma quiet_and_then:
  assumes "\<And>t. quiet_step i s0 t \<Longrightarrow> quiet_step i s0 (snd (a t))"
    "\<And>x t. quiet_step i s0 t \<Longrightarrow> quiet_step i s0 (snd (f x t))" "quiet_step i s0 t"
  shows "quiet_step i s0 (snd (and_then a f t))"
  using assms(2,3) by (cases "a t") (auto simp: and_then_def split: sum.splits dest: assms(1))

lemma configure_channel_quiet: "quiet_step (nat idx) s (snd (configure_channel w idx m s))"
  unfolding configure_channel_def
  by (intro quiet_and_then select_first_gas_quiet apply_ramp_settings_quiet set_vanne_quiet
      send_consigne_quiet quiet_refl)
     (simp_all add: snd_call quiet_trace)

lemma activate_body_local: "local_step (nat idx) s (snd (activate_body w idx s))"
  unfolding activate_body_def and_then_call Let_def
  by (simp split: outcome.splits
      add: local_refl local_trace local_update local_mfc bounded_def
        local_quiet [OF _ quiet_trans [OF discover_gases_quiet [OF quiet_refl] configure_channel_quiet]])

lemma activate_local: "local_step (nat idx) s (snd (activate w idx s))"
  using activate_body_local [of idx s w]
  by (cases "activate_body w idx s")
     (simp add: activate_def and_then_get local_refl switch_off_local split: sum.splits)

lemma deactivate_local: "local_step (nat idx) s (snd (deactivate w idx s))"
  unfolding deactivate_def and_then_get Let_def
  by (simp split: option.splits
      add: local_refl local_update switch_off_local swallow_def reset_data_def bounded_def
        quiet_local [OF shutdown_quiet])


lemma local_invariant:
  assumes "local_step i s s'" "invariant s"
    "is_connected s \<or> (\<not> active (devices s' ! i) \<and> mfc_objs s' ! i = None)"
  shows "invariant s'"
proof -
  have wf: "well_formed s'"
    using assms(1,2) by (simp add: local_step_def invariant_def well_formed_def)
  have b: "bounded (devices s' ! j)" if "j < length (devices s')" for j
    using assms(1,2) that by (cases "j = i") (auto simp: local_step_def invariant_def)
  have c: "is_connected s' = is_connected s"
    using assms(1) by (simp add: local_step_def is_connected_def)
  have "all_off s'" if "\<not> is_connected s"
    unfolding all_off_def
  proof (intro allI impI)
    fix j assume "j < max_devices s'"
    then have "j < max_devices s" using assms(1) by (simp add: local_step_def)
    with assms(2) that have "\<not> active (devices s ! j) \<and> mfc_objs s ! j = None"
      by (simp add: invariant_def all_off_def)
    then show "\<not> active (devices s' ! j) \<and> mfc_objs s' ! j = None"
      using assms(1,3) that by (cases "j = i") (auto simp: local_step_def)
  qed
  with wf b c show ?thesis
    by (simp add: invariant_def)
qed

lemma quiet_invariant:
  assumes "quiet_step i s s'" "invariant s"
  shows "invariant s'"
proof (cases "is_connected s \<or> max_devices s \<le> i")
  case True
  then show ?thesis
  proof
    assume "is_connected s"
    then show ?thesis using local_invariant [OF quiet_local [OF assms(1)] assms(2)] by simp
  next
    assume far: "max_devices s \<le> i"
    have wf: "well_formed s'"
      using assms by (simp add: quiet_step_def local_step_def invariant_def well_formed_def)
    have b: "\<forall>j < length (devices s'). bounded (devices s' ! j)"
      using assms far by (auto simp: quiet_step_def local_step_def invariant_def well_formed_def)
    have "all_off s'" if "\<not> is_connected s"
      using assms far that
      by (auto simp: quiet_step_def local_step_def invariant_def all_off_def)
    moreover have "is_connected s' = is_connected s"
      using assms(1) by (simp add: quiet_step_def local_step_def is_connected_def)
    ultimately show ?thesis using wf b by (simp add: invariant_def)
  qed
next
  case False
  then have "\<not> active (devices s ! i) \<and> mfc_objs s ! i = None"
    using assms(2) by (simp add: invariant_def all_off_def)
  then have "\<not> active (devices s' ! i) \<and> mfc_objs s' ! i = None"
    using assms(1) by (simp add: quiet_step_def)
  then show ?thesis
    using local_invariant [OF quiet_local [OF assms(1)] assms(2)] by simp
qed


lemma fold_switch_off_bounded:
  assumes "\<forall>j < length (devices s). bounded (devices s ! j)"
  shows "\<forall>j < length (devices (fold switch_off js s)). bounded (devices (fold switch_off js s) ! j)"
  using assms
proof (induction js arbitrary: s)
  case Nil
  then show ?case by simp
next
  case (Cons k js)
  have "\<forall>j < length (devices (switch_off k s)). bounded (devices (switch_off k s) ! j)"
  proof (intro allI impI)
    fix j assume "j < length (devices (switch_off k s))"
    then show "bounded (devices (switch_off k s) ! j)"
      using Cons.prems
      by (cases "j = k") (auto simp: switch_off_def update_device_def bounded_def)
  qed
  from Cons.IH [OF this] show ?case by simp
qed

lemma session_change_invariant:
  assumes "well_formed t" "\<forall>j < length (devices t). bounded (devices t ! j)" "all_off t"
    "devices t' = devices t" "mfc_objs t' = mfc_objs t" "max_devices t' = max_devices t"
  shows "invariant t'"
  using assms by (simp add: invariant_def well_formed_def all_off_def)

lemma disconnect_off:
  assumes "well_formed s" "i < max_devices s"
  shows "\<not> active (devices (disconnect w s) ! i) \<and> mfc_objs (disconnect w s) ! i = None"
  using assms fold_switch_off_off [of i "[0..<max_devices s]"]
  by (simp add: disconnect_unfold well_formed_def stop_polling_def)

lemma disconnect_all_off: "well_formed s \<Longrightarrow> all_off (disconnect w s)"
  by (simp add: all_off_def disconnect_fields disconnect_off)

lemma disconnect_invariant:
  assumes "invariant s"
  shows "invariant (disconnect w s)"
proof -
  have wf: "well_formed s" and b: "\<forall>j < length (devices s). bounded (devices s ! j)"
    using assms by (simp_all add: invariant_def)
  have "well_formed (disconnect w s)"
    using wf by (simp add: well_formed_def disconnect_fields)
  moreover have "\<forall>j < length (devices (disconnect w s)). bounded (devices (disconnect w s) ! j)"
    unfolding disconnect_unfold
    by (rule fold_switch_off_bounded) (use b in \<open>simp add: stop_polling_def\<close>)
  ultimately show ?thesis
    using disconnect_all_off [OF wf, of w] by (simp add: invariant_def)
qed

lemma connect_invariant:
  assumes "invariant s"
  shows "invariant (snd (connect w port s))"
proof -
  let ?t = "disconnect w s"
  have wf: "well_formed s" using assms by (simp add: invariant_def)
  have i: "invariant ?t" by (rule disconnect_invariant [OF assms])
  then have t: "well_formed ?t" "\<forall>j < length (devices ?t). bounded (devices ?t ! j)"
    by (simp_all add: invariant_def)
  show ?thesis
    by (rule session_change_invariant [OF t disconnect_all_off [OF wf]])
       (simp_all add: connect_def open_serial_port_def and_then_def call_def start_polling_def
          split: outcome.splits)
qed

lemma ensure_dir_quiet: "quiet_step i s0 s \<Longrightarrow> quiet_step i s0 (snd (ensure_dir w s))"
  by (simp add: ensure_dir_def call_def quiet_trace split: outcome.splits)

lemma load_tags_quiet: "quiet_step i s0 s \<Longrightarrow> quiet_step i s0 (snd (load_tags w s))"
  unfolding load_tags_def
  by (rule quiet_and_then) (simp_all add: ensure_dir_quiet split: outcome.splits option.splits)

lemma save_tags_quiet: "quiet_step i s0 s \<Longrightarrow> quiet_step i s0 (snd (save_tags w ts s))"
  unfolding save_tags_def
  by (rule quiet_and_then) (simp_all add: ensure_dir_quiet swallow_def snd_call quiet_trace)

lemma api_set_tag_quiet: "quiet_step (nat idx) s (snd (api_set_tag w idx t s))"
  unfolding api_set_tag_def Let_def
  by (intro quiet_and_then load_tags_quiet quiet_refl)
     (auto split: sum.splits intro!: quiet_and_then save_tags_quiet set_tag_quiet)

lemma poll_visits_invariant: "invariant s \<Longrightarrow> invariant (fold (poll_visit w) js s)"
proof (induction js arbitrary: s)
  case Nil
  then show ?case by simp
next
  case (Cons j js)
  have "invariant (poll_visit w j s)"
    by (rule quiet_invariant [OF poll_visit_quiet [OF quiet_refl] Cons.prems])
  from Cons.IH [OF this] show ?case by simp
qed

lemma snd_returning_snapshot: "snd (returning_snapshot m s) = snd (m s)"
  by (cases "m s") (simp add: returning_snapshot_cases split: sum.splits)

lemma activate_invariant:
  assumes "invariant s"
  shows "invariant (snd (activate w idx s))"
proof (cases "is_connected s")
  case True
  then show ?thesis
    using local_invariant [OF activate_local assms, where idx1 = idx and w1 = w] by simp
next
  case False
  then have "snd (activate w idx s) = s"
    by (simp add: activate_def and_then_get)
  with assms show ?thesis by simp
qed

lemma deactivate_invariant:
  assumes "invariant s"
  shows "invariant (snd (deactivate w idx s))"
proof (cases "0 \<le> idx \<and> idx < int (max_devices s)")
  case True
  have "well_formed s" using assms by (simp add: invariant_def)
  with True have "\<not> active (devices (snd (deactivate w idx s)) ! nat idx) \<and>
                  mfc_objs (snd (deactivate w idx s)) ! nat idx = None"
    using deactivate_effect [of idx s w] by (simp add: Let_def)
  then show ?thesis
    using local_invariant [OF deactivate_local assms, where idx1 = idx and w1 = w] by simp
next
  case False
  then have "snd (deactivate w idx s) = s"
    by (auto simp: deactivate_def and_then_get)
  with assms show ?thesis by simp
qed

lemma perform_invariant:
  assumes "invariant s"
  shows "invariant (perform w a s)"
proof (cases a)
  case PollCycle
  then show ?thesis
    using assms by (simp add: poll_cycle_def poll_visits_invariant)
next
  case (Call r)
  show ?thesis
  proof (cases r)
    case (Connect port)
    with Call show ?thesis
      by (simp add: api_connect_def snd_returning_snapshot connect_invariant [OF assms])
  next
    case Disconnect
    with Call show ?thesis
      by (simp add: api_disconnect_def snd_returning_snapshot disconnect_invariant [OF assms])
  next
    case (SetTag idx t)
    with Call show ?thesis
      using quiet_invariant [OF api_set_tag_quiet assms] by simp
  next
    case (ToggleDevice idx on)
    with Call show ?thesis
      by (simp add: api_toggle_device_def snd_returning_snapshot activate_invariant [OF assms]
          deactivate_invariant [OF assms])
  next
    case (SetConsigne idx v)
    with Call show ?thesis
      using quiet_invariant [OF send_consigne_quiet [OF quiet_refl] assms]
      by (simp add: api_set_consigne_def snd_returning_snapshot)
  next
    case (SetVanneMode idx action)
    with Call show ?thesis
      using quiet_invariant [OF set_vanne_quiet [OF quiet_refl] assms]
      by (simp add: api_set_vanne_def snd_returning_snapshot)
  next
    case (ResetTotal idx)
    with Call show ?thesis
      using quiet_invariant [OF reset_totalization_quiet [OF quiet_refl] assms]
      by (simp add: api_reset_total_def snd_returning_snapshot)
  next
    case (SetRamp idx ra rt)
    with Call show ?thesis
      using quiet_invariant [OF apply_ramp_settings_quiet [OF quiet_refl] assms]
      by (simp add: api_set_ramp_def snd_returning_snapshot)
  next
    case (SelectGas idx name)
    with Call show ?thesis
      using quiet_invariant [OF select_gas_quiet [OF quiet_refl] assms]
      by (simp add: api_select_gas_def snd_returning_snapshot)
  qed
qed

lemma init_invariant: "invariant (init tags n)"
  by (simp add: invariant_def well_formed_def all_off_def init_def new_device_def bounded_def
      is_connected_def)

lemma run_invariant: "invariant s \<Longrightarrow> invariant (run w acts s)"
  unfolding run_def
  by (induction acts arbitrary: s) (simp_all add: perform_invariant)

subsection \<open>The bench from a fresh supervisor\<close>

lemma connect_reaches_idle:
  "run bench_world [Call (Connect ''COM3'')] (init [''MFC00001''] 1) =
     idle_state\<lparr>trace := [SerialOpen ''COM3'']\<rparr>"
  by (simp add: run_def api_connect_def returning_snapshot_def connect_def
      disconnect_def open_serial_port_def stop_polling_def start_polling_def switch_off_def
      init_def new_device_def and_then_def call_def swallow_def is_connected_def
      bench_world_def update_device_def Let_def idle_state_def)

lemma bench_chars:
  "char_of (78::nat) = CHR ''N''" "char_of (50::nat) = CHR ''2''"
  "char_of (65::nat) = CHR ''A''" "char_of (114::nat) = CHR ''r''"
  by code_simp+

lemma activate_reaches_fresh:
  "activate bench_world 0 (idle_state\<lparr>trace := tr\<rparr>) =
     (Inr (), fresh_state\<lparr>trace := tr @
        [MfcNew, Mfc (tag_name bench_mfc) GetAddress,
         Mfc (tag_name bench_mfc) (SelectGaz 1), Mfc (tag_name bench_mfc) (SelectNom 1),
         Mfc (tag_name bench_mfc) (SelectGaz 2), Mfc (tag_name bench_mfc) (SelectNom 2),
         Mfc (tag_name bench_mfc) (SelectGaz 3), Mfc (tag_name bench_mfc) (SelectNom 3),
         Mfc (tag_name bench_mfc) (SelectGaz 4), Mfc (tag_name bench_mfc) (SelectNom 4),
         Mfc (tag_name bench_mfc) (SelectGaz 1),
         Mfc (tag_name bench_mfc) (WriteTotalizerControl 1),
         Mfc (tag_name bench_mfc) (WriteRampControl 0),
         Mfc (tag_name bench_mfc) (SetVanne 0), Mfc (tag_name bench_mfc) RedVanne]\<rparr>)"
  by (simp add: activate_def activate_body_def configure_channel_def discover_gases_def
      probe_gas_def select_first_gas_def apply_ramp_settings_def set_vanne_def send_consigne_def
      and_then_def get_def need_mfc_def call_def read_now_def
      swallow_def is_connected_def update_device_def Let_def
      bench_world_def bench_gas_name_def decode_name_def or_na_def
      vanne_cmd_cases regulation_def idle_state_def fresh_state_def bench_mfc_def new_device_def
      bench_chars fl_truthy_def fl_le_def)


lemma bench_start_eval: "bench_start = fresh_state\<lparr>trace := bench_log\<rparr>"
proof -
  have "bench_start =
          snd (api_call bench_world (ToggleDevice 0 True)
                 (run bench_world [Call (Connect ''COM3'')] (init [''MFC00001''] 1)))"
    by (simp add: bench_start_def run_def)
  also have "\<dots> = snd (activate bench_world 0 (idle_state\<lparr>trace := [SerialOpen ''COM3'']\<rparr>))"
    by (simp add: connect_reaches_idle [unfolded One_nat_def] api_toggle_device_def
        snd_returning_snapshot)
  also have "\<dots> = fresh_state\<lparr>trace := bench_log\<rparr>"
    by (simp add: activate_reaches_fresh bench_log_def)
  finally show ?thesis .
qed

subsection \<open>History buffers\<close>

lemma py_last_n_spec:
  "length h \<le> cap \<Longrightarrow> 0 < cap \<Longrightarrow> py_last_n cap (h @ [e]) = spec_append cap h e"
  by (cases h) (auto simp: py_last_n_def spec_append_def Suc_diff_le)

lemma send_consigne_appends:
  assumes "0 \<le> idx" "idx < int (max_devices s)" "invariant s"
    "fst (send_consigne w idx v s) = Inr ()" "py_float v \<noteq> None"
    "fl_truthy (full_scale_value (devices s ! nat idx))"
  shows "consigne_points (devices (snd (send_consigne w idx v s)) ! nat idx) =
           spec_append 3600 (consigne_points (devices s ! nat idx))
             (consigne (devices (snd (send_consigne w idx v s)) ! nat idx), now w (clock_reads s))"
proof -
  have len: "nat idx < length (devices s)"
    and b: "length (consigne_points (devices s ! nat idx)) \<le> 3600"
    using assms(1-3) by (auto simp: invariant_def well_formed_def bounded_def)
  show ?thesis
    using assms(1,2,4-6) len b
    by (auto simp add: send_consigne_def unfold_steps Let_def update_device_def py_last_n_spec
        split: option.splits outcome.splits if_splits)
qed


lemma send_consigne_history:
  assumes "nat idx < length (devices X)"
  shows "let X' = snd (send_consigne w idx v X); d = devices X ! nat idx; d' = devices X' ! nat idx
         in measurements d' = measurements d \<and> mesure d' = mesure d \<and>
            selected_gas d' = selected_gas d \<and>
            ((clock_reads X' = clock_reads X \<and> consigne_points d' = consigne_points d) \<or>
             (clock_reads X' = Suc (clock_reads X) \<and>
              consigne_points d' =
                py_last_n 3600 (consigne_points d @ [(consigne d', now w (clock_reads X))])))"
  using assms
  unfolding send_consigne_def unfold_steps Let_def
  by (simp split: option.splits outcome.splits add: update_device_def)

lemma poll_store_appends:
  assumes "nat idx < length (devices X)"
    "fst (poll_store w idx fr tmp fs tot valve X) = Inr ()"
    "measurements (devices X ! nat idx) = hm" "consigne_points (devices X ! nat idx) = hc"
    "consigne (devices X ! nat idx) = c" "clock_reads X = k"
    "length hm \<le> 3600" "length hc \<le> 3600"
  shows "let s' = snd (poll_store w idx fr tmp fs tot valve X); d' = devices s' ! nat idx;
             t = now w k; A = spec_append 3600 hc (c, t)
         in measurements d' =
              spec_append 3600 hm
                ((case py_float (fst (mesure d')) of None \<Rightarrow> Fin 0 | Some x \<Rightarrow> x), t) \<and>
            consigne_points d' =
              (if clock_reads s' = Suc k then A
               else spec_append 3600 A (consigne d', now w (Suc k))) \<and>
            selected_gas d' = selected_gas (devices X ! nat idx)"
proof -
  obtain f where f: "py_float (or_zero (fst fs)) = Some f"
    using assms(2) by (cases "py_float (or_zero (fst fs))") (simp_all add: poll_store_def Let_def)
  define mv where "mv = (case py_float (fst fr) of None \<Rightarrow> Fin 0 | Some x \<Rightarrow> x)"
  define X5 where "X5 = update_device (nat idx)
      (\<lambda>d. d\<lparr>mesure := fr, temperature := tmp, full_scale_value := f, full_scale := fs,
              totalization_value := tot, valve_command := valve,
              measurements := spec_append 3600 hm (mv, now w k),
              consigne_points := spec_append 3600 hc (c, now w k)\<rparr>)
      (X\<lparr>clock_reads := Suc k\<rparr>)"
  have len5: "nat idx < length (devices X5)"
    using assms(1) by (simp add: X5_def update_device_def)
  have s': "snd (poll_store w idx fr tmp fs tot valve X) =
        (if fl_truthy f \<and> fl_truthy c then snd (send_consigne w idx (Num c) X5) else X5)"
    using assms(1,3-8)
    by (simp add: poll_store_def Let_def f and_then_read_now update_device_def swallow_def
        X5_def mv_def py_last_n_spec)
  have d5: "measurements (devices X5 ! nat idx) = spec_append 3600 hm (mv, now w k)"
    "consigne_points (devices X5 ! nat idx) = spec_append 3600 hc (c, now w k)"
    "mesure (devices X5 ! nat idx) = fr" "clock_reads X5 = Suc k"
    "selected_gas (devices X5 ! nat idx) = selected_gas (devices X ! nat idx)"
    using assms(1) by (simp_all add: X5_def update_device_def)
  have A: "length (spec_append 3600 hc (c, now w k)) \<le> 3600"
    using assms(8) by (simp add: spec_append_def)
  show ?thesis
  proof (cases "fl_truthy f \<and> fl_truthy c")
    case False
    then have "snd (poll_store w idx fr tmp fs tot valve X) = X5"
      by (auto simp: s')
    then show ?thesis
      using d5 by (simp add: Let_def mv_def)
  next
    case True
    then have e: "snd (poll_store w idx fr tmp fs tot valve X) = snd (send_consigne w idx (Num c) X5)"
      by (simp add: s')
    show ?thesis
      unfolding e
      using send_consigne_history [OF len5, of w "Num c"] d5 A
      by (auto simp add: Let_def mv_def py_last_n_spec)
  qed
qed


lemma poll_one_appends:
  assumes "0 \<le> idx" "idx < int (max_devices s)" "invariant s"
    "fst (poll_one w idx s) = Inr ()"
    "selected_gas (devices (snd (poll_one w idx s)) ! nat idx) \<noteq> None"
  shows "let s' = snd (poll_one w idx s); d = devices s ! nat idx; d' = devices s' ! nat idx;
             t = now w (clock_reads s);
             A = spec_append 3600 (consigne_points d) (consigne d, t)
         in measurements d' =
              spec_append 3600 (measurements d)
                ((case py_float (fst (mesure d')) of None \<Rightarrow> Fin 0 | Some x \<Rightarrow> x), t) \<and>
            consigne_points d' =
              (if clock_reads s' = Suc (clock_reads s) then A
               else spec_append 3600 A (consigne d', now w (Suc (clock_reads s))))"
proof -
  have len: "nat idx < length (devices s)"
    and b: "length (consigne_points (devices s ! nat idx)) \<le> 3600"
      "length (measurements (devices s ! nat idx)) \<le> 3600"
    using assms(1-3) by (auto simp: invariant_def well_formed_def bounded_def)
  obtain m where m: "mfc_objs s ! nat idx = Some m" "active (devices s ! nat idx)"
    using assms(1,2,4)
    by (auto simp: poll_one_def and_then_get and_then_need_mfc split: option.splits if_splits)
  define s1 where "s1 =
     (if selected_gas (devices s ! nat idx) = None \<and> available_gases (devices s ! nat idx) \<noteq> []
      then update_device (nat idx) (\<lambda>d. d\<lparr>selected_gas :=
             map_of (gas_map d) (hd (available_gases d))\<rparr>) s
      else s)"
  have s1: "measurements (devices s1 ! nat idx) = measurements (devices s ! nat idx)"
    "consigne_points (devices s1 ! nat idx) = consigne_points (devices s ! nat idx)"
    "consigne (devices s1 ! nat idx) = consigne (devices s ! nat idx)"
    "clock_reads s1 = clock_reads s" "length (devices s1) = length (devices s)"
    using len by (simp_all add: s1_def update_device_def)
  have p: "poll_one w idx s =
     (case selected_gas (devices s1 ! nat idx) of
        None \<Rightarrow> (Inr (), s1)
      | Some g \<Rightarrow>
          and_then (call (reading w) (Mfc (tag_name m) (ReadFlowRate g))) (\<lambda>fr.
          and_then (call (reading w) (Mfc (tag_name m) ReadDynamic)) (\<lambda>tmp.
          and_then (call (reading w) (Mfc (tag_name m) (ReadFullScaleFlowRate g))) (\<lambda>fs.
          and_then (call (reading w) (Mfc (tag_name m) ReadTotalizerValue)) (\<lambda>tot.
          and_then (call (valve_label w) (Mfc (tag_name m) RedVanne)) (\<lambda>valve.
            poll_store w idx (or_unknown fr) (or_unknown tmp) (or_unknown fs)
              (or_unknown tot) (or_na valve)))))) s1)"
    using assms(1,2) m unfolding s1_def
    by (simp add: poll_one_def and_then_get and_then_need_mfc Let_def)
  obtain g where g: "selected_gas (devices s1 ! nat idx) = Some g"
    using assms(5) by (cases "selected_gas (devices s1 ! nat idx)") (simp_all add: p)
  have "\<exists>fr tmp fs tot valve T.
          poll_one w idx s = poll_store w idx fr tmp fs tot valve (s1\<lparr>trace := T\<rparr>)"
    using assms(4) unfolding p g
    by (simp add: and_then_call split: outcome.splits del: split_paired_Ex) blast
  then obtain fr tmp fs tot valve T
    where e: "poll_one w idx s = poll_store w idx fr tmp fs tot valve (s1\<lparr>trace := T\<rparr>)"
    by blast
  have "let s' = snd (poll_store w idx fr tmp fs tot valve (s1\<lparr>trace := T\<rparr>));
            d' = devices s' ! nat idx; t = now w (clock_reads s);
            A = spec_append 3600 (consigne_points (devices s ! nat idx))
                  (consigne (devices s ! nat idx), t)
        in measurements d' =
             spec_append 3600 (measurements (devices s ! nat idx))
               ((case py_float (fst (mesure d')) of None \<Rightarrow> Fin 0 | Some x \<Rightarrow> x), t) \<and>
           consigne_points d' =
             (if clock_reads s' = Suc (clock_reads s) then A
              else spec_append 3600 A (consigne d', now w (Suc (clock_reads s)))) \<and>
           selected_gas d' = selected_gas (devices (s1\<lparr>trace := T\<rparr>) ! nat idx)"
    by (rule poll_store_appends)
       (use assms(4) len b s1 in \<open>simp_all add: e\<close>)
  then show ?thesis
    by (simp add: e Let_def)
qed


lemma py_last_n_append:
  "0 < n \<Longrightarrow> py_last_n n (h @ [e]) = drop (Suc (length h) - n) h @ [e]"
  by (simp add: py_last_n_def)

text \<open>
  Claim C6. After any sequence of control-surface calls and polling cycles, started
  from a freshly built supervisor (or from any state satisfying the invariant), the
  measurement history and the setpoint history of every channel hold at most 3600
  entries. Each place where the code extends a history does it as the specification
  says: when \<^verbatim>\<open>send_consigne\<close> returns after its device write, the setpoint history is
  the old one with the stored setpoint and the time appended, the oldest entry evicted
  if that exceeds the cap; when \<^verbatim>\<open>_poll_one\<close> returns after its exchange, the
  measurement history is extended so by the measured value, and the setpoint history by
  the stored setpoint, and once more by the re-issued setpoint when the re-issued write
  returned (the clock was then read twice). Below the cap nothing is dropped, at the cap
  exactly the oldest entry is, and the new entry is last.
\<close>

theorem histories_capped:
  "(\<forall>d \<in> set (devices (run w acts (init tags n))).
      length (measurements d) \<le> 3600 \<and> length (consigne_points d) \<le> 3600) \<and>
   (invariant s \<longrightarrow>
      (\<forall>d \<in> set (devices (run w acts s)).
         length (measurements d) \<le> 3600 \<and> length (consigne_points d) \<le> 3600)) \<and>
   (invariant s \<and> 0 \<le> idx \<and> idx < int (max_devices s) \<and>
    fst (send_consigne w idx v s) = Inr () \<and> py_float v \<noteq> None \<and>
    fl_truthy (full_scale_value (devices s ! nat idx)) \<longrightarrow>
      consigne_points (devices (snd (send_consigne w idx v s)) ! nat idx) =
        spec_append 3600 (consigne_points (devices s ! nat idx))
          (consigne (devices (snd (send_consigne w idx v s)) ! nat idx), now w (clock_reads s))) \<and>
   (invariant s \<and> 0 \<le> idx \<and> idx < int (max_devices s) \<and>
    fst (poll_one w idx s) = Inr () \<and>
    selected_gas (devices (snd (poll_one w idx s)) ! nat idx) \<noteq> None \<longrightarrow>
      (let s' = snd (poll_one w idx s); d = devices s ! nat idx; d' = devices s' ! nat idx;
           t = now w (clock_reads s);
           A = spec_append 3600 (consigne_points d) (consigne d, t)
       in measurements d' =
            spec_append 3600 (measurements d)
              ((case py_float (fst (mesure d')) of None \<Rightarrow> Fin 0 | Some x \<Rightarrow> x), t) \<and>
          consigne_points d' =
            (if clock_reads s' = Suc (clock_reads s) then A
             else spec_append 3600 A (consigne d', now w (Suc (clock_reads s)))))) \<and>
   (length h \<le> 3600 \<longrightarrow> length (spec_append 3600 h e) \<le> 3600) \<and>
   (length h < 3600 \<longrightarrow> spec_append 3600 h e = h @ [e]) \<and>
   (length h = 3600 \<longrightarrow> spec_append 3600 h e = tl h @ [e]) \<and>
   length (py_last_n 3600 (h @ [e])) \<le> 3600 \<and>
   py_last_n 3600 (h @ [e]) = drop (Suc (length h) - 3600) h @ [e] \<and>
   (length h < 3600 \<longrightarrow> py_last_n 3600 (h @ [e]) = h @ [e]) \<and>
   (length h = 3600 \<longrightarrow> py_last_n 3600 (h @ [e]) = tl h @ [e])"
proof -
  have capped: "\<forall>d \<in> set (devices t). bounded d" if "invariant t" for t
    using that by (auto simp: invariant_def in_set_conv_nth)
  have 1: "\<forall>d \<in> set (devices (run w acts (init tags n))). bounded d"
    by (rule capped [OF run_invariant [OF init_invariant]])
  have 2: "\<forall>d \<in> set (devices (run w acts s)). bounded d" if "invariant s"
    by (rule capped [OF run_invariant [OF that]])
  have 3: "(length h \<le> 3600 \<longrightarrow> length (spec_append 3600 h e) \<le> 3600) \<and>
   (length h < 3600 \<longrightarrow> spec_append 3600 h e = h @ [e]) \<and>
   (length h = 3600 \<longrightarrow> spec_append 3600 h e = tl h @ [e])"
    by (cases h) (auto simp: spec_append_def)
  show ?thesis
    using 1 2 3 send_consigne_appends [of idx s w v] poll_one_appends [of idx s w]
    by (simp add: bounded_def length_py_last_n py_last_n_append drop_Suc)
qed

lemma full_state_invariant: "invariant full_state"
  by (simp add: invariant_def well_formed_def bounded_def is_connected_def bench_states
      full_state_def)

lemma full_state_send:
  "send_consigne bench_world 0 (Num (Fin 50)) full_state =
     (Inr (),
      (update_device 0
         (\<lambda>d. d\<lparr>consigne := Fin 50,
                 consigne_points := replicate 3599 (Fin 0, 1) @ [(Fin 50, 3600)]\<rparr>) full_state)
      \<lparr>trace := [Mfc (tag_name bench_mfc) (WriteSetpoint (Fin 50) 57)], clock_reads := 3601\<rparr>)"
  by (simp add: send_consigne_def unfold_steps bench_world_def bench_states full_state_def
      Let_def py_last_n_def fl_truthy_def)

lemma full_state_poll:
  "poll_one bench_world 0 full_state =
     (Inr (),
      (update_device 0
         (\<lambda>d. d\<lparr>mesure := (Num (Fin 12.5), ''ln/min''),
                 measurements := replicate 3599 (Fin 0, 1) @ [(Fin 12.5, 3600)],
                 consigne_points := replicate 3599 (Fin 0, 1) @ [(Fin 0, 3600)]\<rparr>) full_state)
      \<lparr>trace := [Mfc (tag_name bench_mfc) (ReadFlowRate 1), Mfc (tag_name bench_mfc) ReadDynamic,
                 Mfc (tag_name bench_mfc) (ReadFullScaleFlowRate 1),
                 Mfc (tag_name bench_mfc) ReadTotalizerValue, Mfc (tag_name bench_mfc) RedVanne],
        clock_reads := 3601\<rparr>)"
  by (simp add: poll_one_def poll_store_def unfold_steps bench_world_def bench_reading_def
      bench_states full_state_def Let_def py_last_n_def or_unknown_def or_zero_def or_na_def
      fl_truthy_def unknown_def)


theorem histories_capped_witness:
  "devices (run bench_world [Call (Connect ''COM3'')] (init [''MFC00001''] 1))
     = [new_device 0 ''MFC00001''] \<and>
   invariant full_state \<and>
   consigne_points (devices full_state ! 0) = (Fin 7, 0) # replicate 3599 (Fin 0, 1) \<and>
   fst (send_consigne bench_world 0 (Num (Fin 50)) full_state) = Inr () \<and>
   consigne_points (devices (snd (send_consigne bench_world 0 (Num (Fin 50)) full_state)) ! 0)
     = replicate 3599 (Fin 0, 1) @ [(Fin 50, 3600)] \<and>
   fst (poll_one bench_world 0 full_state) = Inr () \<and>
   measurements (devices (snd (poll_one bench_world 0 full_state)) ! 0)
     = replicate 3599 (Fin 0, 1) @ [(Fin 12.5, 3600)] \<and>
   consigne_points (devices (snd (poll_one bench_world 0 full_state)) ! 0)
     = replicate 3599 (Fin 0, 1) @ [(Fin 0, 3600)]"
  using histories_capped [where w = bench_world and acts = "[Call (Connect ''COM3'')]"
      and tags = "[''MFC00001'']" and n = 1 and s = full_state and idx = 0 and v = "Num (Fin 50)"
      and h = "replicate 3600 (0::nat)" and e = 1]
    full_state_invariant
  unfolding full_state_send full_state_poll connect_reaches_idle
  by (simp add: idle_state_def full_state_def bench_states bench_world_def spec_append_def
      fl_truthy_def)


subsection \<open>Activation failure\<close>







subsection \<open>The claims that fail as stated\<close>

text \<open>
  Claim C1 as stated fails: switching the bench channel off right after it was switched
  on (gas 1 of the menu \<^verbatim>\<open>N2\<close>, \<^verbatim>\<open>Ar\<close> selected) leaves the selected gas, the gas menu
  and the gas map in place.
\<close>

theorem deactivate_keeps_gas_menu:
  "selected_gas (devices (snd (deactivate bench_world 0 bench_start)) ! 0) = Some 1 \<and>
   available_gases (devices (snd (deactivate bench_world 0 bench_start)) ! 0) = [''N2'', ''Ar''] \<and>
   gas_map (devices (snd (deactivate bench_world 0 bench_start)) ! 0) = [(''N2'', 1), (''Ar'', 2)]"
  by (simp add: bench_start_eval deactivate_def shutdown_def send_consigne_def and_then_def
      call_def get_def need_mfc_def read_now_def swallow_def switch_off_def reset_data_def
      bench_states bench_world_def Let_def py_last_n_def)

text \<open>
  Claim C9 as stated fails: the English action string \<^verbatim>\<open>"Opening"\<close> is not a key of the
  dictionary, so on the active bench channel the call returns without any device write
  (the trace and the rest of the state are unchanged) instead of writing command 1.
\<close>

theorem set_vanne_ignores_opening:
  "active (devices bench_start ! 0) \<and>
   set_vanne bench_world 0 ''Opening'' bench_start = (Inr (), bench_start)"
  by (simp add: bench_start_eval set_vanne_def and_then_def get_def need_mfc_def vanne_cmd_cases
      regulation_def bench_states)

text \<open>
  Claim C8 as stated fails on a fresh supervisor: \<^verbatim>\<open>set_tag\<close> answers the bare status
  \<^verbatim>\<open>True\<close>, and a setpoint call on a channel that is off raises the device-off error
  instead of returning a snapshot.
\<close>

theorem api_set_tag_returns_status:
  "fst (api_call bench_world (SetTag 0 ''PUMP'') (init [''MFC00001''] 1)) = Inr (Status True) \<and>
   api_call bench_world (SetConsigne 0 (Num (Fin 5))) (init [''MFC00001''] 1) =
     (Inl DeviceOff, init [''MFC00001''] 1)"
  by (simp add: api_set_tag_def api_set_consigne_def returning_snapshot_def load_tags_def
      save_tags_def ensure_dir_def set_tag_def send_consigne_def need_mfc_def get_def
      and_then_def call_def swallow_def py_setitem_def default_tags_def MAX_MASSIQUES_def
      bench_world_def init_def new_device_def Let_def)

lemma poll_reaches_polled:
  "poll_one bench_world 0 (fresh_state\<lparr>trace := tr\<rparr>) =
     (Inr (),
      (update_device 0
         (\<lambda>d. d\<lparr>mesure := (Num (Fin 12.5), ''ln/min''), full_scale_value := Fin 100,
                 full_scale := (Num (Fin 100), ''ln/min''),
                 measurements := [(Fin 12.5, 0)], consigne_points := [(Fin 0, 0)]\<rparr>) fresh_state)
      \<lparr>trace := tr @ bench_reads, clock_reads := 1\<rparr>)"
  by (simp add: poll_one_def poll_store_def unfold_steps bench_world_def bench_reading_def
      bench_states bench_reads_def Let_def py_last_n_def or_unknown_def or_zero_def or_na_def
      fl_truthy_def unknown_def)

lemma bench_polled_eval:
  "bench_polled =
     (update_device 0
         (\<lambda>d. d\<lparr>mesure := (Num (Fin 12.5), ''ln/min''), full_scale_value := Fin 100,
                 full_scale := (Num (Fin 100), ''ln/min''),
                 measurements := [(Fin 12.5, 0)], consigne_points := [(Fin 0, 0)]\<rparr>) fresh_state)
      \<lparr>trace := bench_log @ bench_reads, clock_reads := 1\<rparr>"
proof -
  have "bench_polled = perform bench_world PollCycle bench_start"
    by (simp add: bench_polled_def bench_start_def run_def)
  also have "\<dots> = poll_visit bench_world 0 (fresh_state\<lparr>trace := bench_log\<rparr>)"
    by (simp add: bench_start_eval poll_cycle_def fresh_state_def idle_state_def)
  also have "\<dots> = snd (poll_one bench_world 0 (fresh_state\<lparr>trace := bench_log\<rparr>))"
    by (simp add: poll_visit_def poll_reaches_polled) (simp add: bench_states)
  finally show ?thesis
    by (simp add: poll_reaches_polled)
qed

text \<open>
  Claim C2 as stated fails: \<^verbatim>\<open>float()\<close> accepts NaN (as a float and as the text
  \<^verbatim>\<open>"nan"\<close>), and for NaN both comparisons of the clamp are false. On the bench channel,
  active with a full scale of 100 learnt by a poll, the setpoint NaN is stored as it is,
  so outside \<open>[0, 100]\<close>, and written to the device.
\<close>

theorem send_consigne_stores_nan:
  "active (devices bench_polled ! 0) \<and> full_scale_value (devices bench_polled ! 0) = Fin 100 \<and>
   fst (send_consigne bench_world 0 (Num NaN) bench_polled) = Inr () \<and>
   consigne (devices (snd (send_consigne bench_world 0 (Num NaN) bench_polled)) ! 0) = NaN \<and>
   trace (snd (send_consigne bench_world 0 (Num NaN) bench_polled)) =
     bench_log @ bench_reads @ [Mfc (tag_name bench_mfc) (WriteSetpoint NaN 57)]"
  by (simp add: bench_polled_eval send_consigne_def unfold_steps bench_world_def bench_states
      Let_def fl_truthy_def)

text \<open>NaN is guarded nowhere: the ramp time takes it too.\<close>

lemma apply_ramp_settings_stores_nan:
  "ramp_time_s (devices (snd (apply_ramp_settings bench_world 0 True (Num NaN) bench_polled)) ! 0)
     = NaN"
  by (simp add: bench_polled_eval apply_ramp_settings_def and_then_def get_def need_mfc_def
      call_def bench_world_def bench_states Let_def fl_le_def)

end
